theory Spec2Isabelle
  imports Main
begin

section \<open>Python values shared by the three programs\<close>

text \<open>
  The client (\<^verbatim>\<open>python_translator.py\<close>), the ingestion handler
  (\<^verbatim>\<open>lambda_function/lambda_function.py\<close>) and the retrieval handler
  (\<^verbatim>\<open>retrieval_function/lambda_function.py\<close>) exchange decoded JSON documents.
  A Python \<^verbatim>\<open>str\<close> is modelled as a \<^typ>\<open>string\<close>: one \<^typ>\<open>char\<close> stands for one code
  point, so the model covers the code points below 256. A decoded JSON object is an
  association list in insertion order, looked up with \<^const>\<open>map_of\<close>. JSON numbers with a
  fraction (Python floats) are left out of the model.
\<close>

datatype json =
    JNull
  | JBool bool
  | JInt int
  | JStr string
  | JList "json list"
  | JDict "(string \<times> json) list"

text \<open>The exceptions the modelled code can raise or receive from its collaborators.\<close>

datatype exn =
    KeyError string
  | TypeError
  | AttributeError
  | ValueError
  | NoSuchKey
  | ClientError string

subsection \<open>Formatting and string helpers\<close>

text \<open>\<^verbatim>\<open>str.rfind(c)\<close> for a one-character needle: the highest index of \<open>c\<close>, or \<open>-1\<close>.\<close>

fun rfind :: "char \<Rightarrow> string \<Rightarrow> int" where
  "rfind c [] = - 1"
| "rfind c (x # xs) =
     (let r = rfind c xs
      in if 0 \<le> r then r + 1 else if x = c then 0 else - 1)"

text \<open>
  \<^verbatim>\<open>os.path.splitext\<close> on POSIX (\<^verbatim>\<open>genericpath._splitext\<close> with \<^verbatim>\<open>sep = '/'\<close>,
  no \<^verbatim>\<open>altsep\<close>, \<^verbatim>\<open>extsep = '.'\<close>). The while loop that skips the leading dots of the
  last path component is \<open>skip_dots\<close>; it answers whether some character between the
  last separator and the last dot is not a dot.
\<close>

function skip_dots :: "string \<Rightarrow> int \<Rightarrow> int \<Rightarrow> bool" where
  "skip_dots p filenameIndex dotIndex =
     (if filenameIndex < dotIndex
      then (if take 1 (drop (nat filenameIndex) p) \<noteq> ''.'' then True
            else skip_dots p (filenameIndex + 1) dotIndex)
      else False)"
  by pat_completeness auto
termination
  by (relation "measure (\<lambda>(p, f, d). nat (d - f))") auto

declare skip_dots.simps [simp del]

definition splitext :: "string \<Rightarrow> string \<times> string" where
  "splitext p =
     (let sepIndex = rfind CHR ''/'' p;
          dotIndex = rfind CHR ''.'' p
      in if dotIndex > sepIndex \<and> skip_dots p (sepIndex + 1) dotIndex
         then (take (nat dotIndex) p, drop (nat dotIndex) p)
         else (p, []))"

text \<open>
  \<^verbatim>\<open>str.strip()\<close> without argument removes leading and trailing whitespace. Among the
  code points below 256 the whitespace characters of Python are 9 to 13, 28 to 32, 133
  and 160.
\<close>

definition is_space :: "char \<Rightarrow> bool" where
  "is_space c =
     (let n = (of_char c :: nat)
      in (9 \<le> n \<and> n \<le> 13) \<or> (28 \<le> n \<and> n \<le> 32) \<or> n = 133 \<or> n = 160)"

definition py_strip :: "string \<Rightarrow> string" where
  "py_strip s = rev (dropWhile is_space (rev (dropWhile is_space s)))"

text \<open>\<^verbatim>\<open>sep.join(xs)\<close>.\<close>

fun join :: "string \<Rightarrow> string list \<Rightarrow> string" where
  "join sep [] = []"
| "join sep [x] = x"
| "join sep (x # y # ys) = x @ sep @ join sep (y # ys)"

text \<open>Decimal digits of a natural number, and \<^verbatim>\<open>str(i)\<close> of an integer.\<close>

fun digits :: "nat \<Rightarrow> string" where
  "digits n =
     (if n < 10 then [char_of (48 + n)]
      else digits (n div 10) @ [char_of (48 + n mod 10)])"

declare digits.simps [simp del]

definition str_int :: "int \<Rightarrow> string" where
  "str_int i = (if i < 0 then CHR ''-'' # digits (nat (- i)) else digits (nat i))"

text \<open>\<^verbatim>\<open>s.zfill(w)\<close> on a digit string, as \<^verbatim>\<open>%02d\<close> and \<^verbatim>\<open>%04d\<close> produce it.\<close>

definition zfill :: "nat \<Rightarrow> string \<Rightarrow> string" where
  "zfill w s = replicate (w - length s) CHR ''0'' @ s"

text \<open>
  \<^verbatim>\<open>repr\<close> of a string: single quotes unless the string holds a single quote and no
  double quote; the quote and the backslash are escaped, tab, newline and carriage return
  are written with their letters, and the other non-printable code points (below 32, 127
  to 160, 173) as \<^verbatim>\<open>\xNN\<close>.
\<close>

definition hex_digit :: "nat \<Rightarrow> char" where
  "hex_digit n = (if n < 10 then char_of (48 + n) else char_of (87 + n))"

definition repr_char :: "char \<Rightarrow> char \<Rightarrow> string" where
  "repr_char quote c =
     (let n = (of_char c :: nat)
      in if c = quote \<or> c = CHR 0x5C then [CHR 0x5C, c]
         else if n = 9 then [CHR 0x5C, CHR ''t'']
         else if n = 10 then [CHR 0x5C, CHR ''n'']
         else if n = 13 then [CHR 0x5C, CHR ''r'']
         else if n < 32 \<or> (127 \<le> n \<and> n \<le> 160) \<or> n = 173
           then [CHR 0x5C, CHR ''x'', hex_digit (n div 16), hex_digit (n mod 16)]
         else [c])"

definition repr_str :: "string \<Rightarrow> string" where
  "repr_str s =
     (let quote = (if CHR 0x27 \<in> set s \<and> CHR 0x22 \<notin> set s then CHR 0x22 else CHR 0x27)
      in quote # concat (map (repr_char quote) s) @ [quote])"

text \<open>\<^verbatim>\<open>repr(v)\<close> and \<^verbatim>\<open>str(v)\<close> of a decoded JSON value.\<close>

fun py_repr :: "json \<Rightarrow> string" where
  "py_repr JNull = ''None''"
| "py_repr (JBool b) = (if b then ''True'' else ''False'')"
| "py_repr (JInt i) = str_int i"
| "py_repr (JStr s) = repr_str s"
| "py_repr (JList xs) = ''['' @ join '', '' (map py_repr xs) @ '']''"
| "py_repr (JDict kvs) =
     ''{'' @ join '', '' (map (\<lambda>(k, v). repr_str k @ '': '' @ py_repr v) kvs) @ ''}''"

definition py_str :: "json \<Rightarrow> string" where
  "py_str v = (case v of JStr s \<Rightarrow> s | _ \<Rightarrow> py_repr v)"

subsection \<open>Operations on decoded JSON\<close>

text \<open>\<^verbatim>\<open>v[k]\<close> with a string key: only a dict supports it.\<close>

definition getitem :: "json \<Rightarrow> string \<Rightarrow> exn + json" where
  "getitem v k =
     (case v of
        JDict kvs \<Rightarrow> (case map_of kvs k of None \<Rightarrow> Inl (KeyError k) | Some x \<Rightarrow> Inr x)
      | _ \<Rightarrow> Inl TypeError)"

text \<open>
  \<^verbatim>\<open>k in v\<close> with a string \<open>k\<close>: key membership for a dict, element membership for a
  list, substring test for a string, \<^verbatim>\<open>TypeError\<close> otherwise.
\<close>

fun is_substring :: "string \<Rightarrow> string \<Rightarrow> bool" where
  "is_substring k [] = (k = [])"
| "is_substring k (c # cs) = (take (length k) (c # cs) = k \<or> is_substring k cs)"

definition contains :: "json \<Rightarrow> string \<Rightarrow> exn + bool" where
  "contains v k =
     (case v of
        JDict kvs \<Rightarrow> Inr (k \<in> fst ` set kvs)
      | JList xs \<Rightarrow> Inr (JStr k \<in> set xs)
      | JStr s \<Rightarrow> Inr (is_substring k s)
      | _ \<Rightarrow> Inl TypeError)"

text \<open>\<^verbatim>\<open>for x in v\<close>: the elements of a list, the keys of a dict, the characters of a string.\<close>

definition py_iter :: "json \<Rightarrow> exn + json list" where
  "py_iter v =
     (case v of
        JList xs \<Rightarrow> Inr xs
      | JDict kvs \<Rightarrow> Inr (map (\<lambda>kv. JStr (fst kv)) kvs)
      | JStr s \<Rightarrow> Inr (map (\<lambda>c. JStr [c]) s)
      | _ \<Rightarrow> Inl TypeError)"

subsection \<open>Clock readings\<close>

text \<open>A value of \<^verbatim>\<open>datetime.utcnow()\<close>.\<close>

record datetime =
  year :: nat
  month :: nat
  day :: nat
  hour :: nat
  minute :: nat
  second :: nat
  microsecond :: nat

text \<open>\<^verbatim>\<open>dt.strftime("%Y%m%d_%H%M%S")\<close>, for the four-digit years a clock reading has.\<close>

definition strftime_stamp :: "datetime \<Rightarrow> string" where
  "strftime_stamp dt =
     zfill 4 (digits (year dt)) @ zfill 2 (digits (month dt)) @ zfill 2 (digits (day dt))
     @ ''_'' @ zfill 2 (digits (hour dt)) @ zfill 2 (digits (minute dt))
     @ zfill 2 (digits (second dt))"

text \<open>\<^verbatim>\<open>dt.isoformat()\<close>: the microseconds are printed only when they are not zero.\<close>

definition isoformat :: "datetime \<Rightarrow> string" where
  "isoformat dt =
     zfill 4 (digits (year dt)) @ ''-'' @ zfill 2 (digits (month dt)) @ ''-''
     @ zfill 2 (digits (day dt)) @ ''T'' @ zfill 2 (digits (hour dt)) @ '':''
     @ zfill 2 (digits (minute dt)) @ '':'' @ zfill 2 (digits (second dt))
     @ (if microsecond dt = 0 then [] else ''.'' @ zfill 6 (digits (microsecond dt)))"

section \<open>Key derivation: client and ingestion handler\<close>

text \<open>
  \<^verbatim>\<open>submit_translation_request\<close> stores the request under
  \<^verbatim>\<open>f"translation_request_{request_data['request_id']}.json"\<close>.
\<close>

definition submit_filename :: "string \<Rightarrow> string" where
  "submit_filename request_id = ''translation_request_'' @ request_id @ ''.json''"

text \<open>
  \<^verbatim>\<open>generate_output_key\<close>; \<open>timestamp\<close> is the value of
  \<^verbatim>\<open>datetime.utcnow().strftime("%Y%m%d_%H%M%S")\<close>.
\<close>

definition generate_output_key :: "string \<Rightarrow> string \<Rightarrow> string" where
  "generate_output_key timestamp input_key =
     (let base_name = fst (splitext input_key)
      in base_name @ ''_translated_'' @ timestamp @ ''.json'')"

text \<open>The prefix \<^verbatim>\<open>wait_for_translation_result\<close> lists the response bucket with.\<close>

definition poll_prefix :: "string \<Rightarrow> string" where
  "poll_prefix request_id = ''translation_request_'' @ request_id @ ''_translated''"

text \<open>\<^verbatim>\<open>key.startswith(prefix)\<close>, the test a prefix listing applies to a key.\<close>

definition startswith :: "string \<Rightarrow> string \<Rightarrow> bool" where
  "startswith key pre = (take (length pre) key = pre)"

section \<open>The translation step\<close>

text \<open>
  The Translation Service Adapter: \<^verbatim>\<open>translate_client.translate_text(Text=...,
  SourceLanguageCode=..., TargetLanguageCode=...)['TranslatedText']\<close>, which returns the
  translated text or raises. The ingestion handler passes the language codes as it
  decoded them (any JSON value), the client passes strings. Every invocation is
  recorded, in order, as a \<open>call\<close>.
\<close>

type_synonym 'l adapter = "string \<Rightarrow> 'l \<Rightarrow> 'l \<Rightarrow> exn + string"

type_synonym 'l call = "string \<times> 'l \<times> 'l"

text \<open>One element of \<^verbatim>\<open>translated_texts\<close>; \<open>entry_id\<close> is its \<^verbatim>\<open>'id'\<close>.\<close>

record entry =
  entry_id :: json
  original_text :: string
  translated_text :: string
  character_count :: nat

text \<open>
  The result dictionary. The list stored under \<^verbatim>\<open>'translations'\<close> is the field
  \<open>translated_texts\<close>; \<^verbatim>\<open>'method'\<close> exists on the direct path only and
  \<^verbatim>\<open>'original_request'\<close> on the ingestion path only.
\<close>

record 'l metadata =
  source_language :: 'l
  target_language :: 'l
  total_texts :: nat
  total_characters :: nat
  timestamp :: string
  processing_status :: string
  method_tag :: "string option"

record 'l translation_result =
  translation_metadata :: "'l metadata"
  translated_texts :: "entry list"
  original_request :: "json option"

subsection \<open>Ingestion: \<^verbatim>\<open>validate_translation_request\<close> and \<^verbatim>\<open>process_translation\<close>\<close>

text \<open>The loop over \<^verbatim>\<open>required_fields\<close>: \<open>Inr False\<close> is the early \<^verbatim>\<open>return False\<close>.\<close>

fun check_required :: "json \<Rightarrow> string list \<Rightarrow> exn + bool" where
  "check_required request_data [] = Inr True"
| "check_required request_data (field # rest) =
     (case contains request_data field of
        Inl e \<Rightarrow> Inl e
      | Inr present \<Rightarrow>
          if \<not> present then Inr False else check_required request_data rest)"

definition validate_translation_request :: "json \<Rightarrow> exn + bool" where
  "validate_translation_request request_data =
     (case check_required request_data [''source_language'', ''target_language'', ''texts''] of
        Inl e \<Rightarrow> Inl e
      | Inr False \<Rightarrow> Inr False
      | Inr True \<Rightarrow>
          (case getitem request_data ''texts'' of
             Inl e \<Rightarrow> Inl e
           | Inr (JList xs) \<Rightarrow> if length xs = 0 then Inr False else Inr True
           | Inr _ \<Rightarrow> Inr False))"

text \<open>
  The text and the id the loop body of \<^verbatim>\<open>process_translation\<close> takes from one item;
  \<open>n\<close> is \<^verbatim>\<open>len(translated_texts)\<close>. The text of a dict item is whatever JSON value is
  stored under \<^verbatim>\<open>'text'\<close>.
\<close>

definition item_text_id :: "json \<Rightarrow> nat \<Rightarrow> json \<times> json" where
  "item_text_id text_item n =
     (case text_item of
        JDict kvs \<Rightarrow>
          (case map_of kvs ''text'' of
             Some t \<Rightarrow> (t, (case map_of kvs ''id'' of Some i \<Rightarrow> i | None \<Rightarrow> JInt (int n)))
           | None \<Rightarrow> (JStr (py_str text_item), JInt (int n)))
      | _ \<Rightarrow> (JStr (py_str text_item), JInt (int n)))"

text \<open>
  The \<^verbatim>\<open>for text_item in texts\<close> loop, with its three local variables as accumulators:
  \<open>translated\<close> is \<^verbatim>\<open>translated_texts\<close>, \<open>total_chars\<close> is \<^verbatim>\<open>total_characters\<close> and \<open>calls\<close>
  the adapter calls made so far. \<^verbatim>\<open>.strip()\<close> on a text that is not a string raises
  \<^verbatim>\<open>AttributeError\<close>; an exception ends the loop and is raised again by the handler
  around it.
\<close>

fun translate_items ::
  "json adapter \<Rightarrow> json \<Rightarrow> json \<Rightarrow> json list \<Rightarrow> entry list \<Rightarrow> nat \<Rightarrow> json call list
   \<Rightarrow> json call list \<times> (exn + entry list \<times> nat)" where
  "translate_items tr src tgt [] translated total_chars calls = (calls, Inr (translated, total_chars))"
| "translate_items tr src tgt (text_item # rest) translated total_chars calls =
     (case item_text_id text_item (length translated) of
        (JStr text_to_translate, text_id) \<Rightarrow>
          if py_strip text_to_translate = []
          then translate_items tr src tgt rest
                 (translated @ [\<lparr>entry_id = text_id, original_text = text_to_translate,
                                 translated_text = [], character_count = 0\<rparr>])
                 total_chars calls
          else (case tr text_to_translate src tgt of
                  Inl e \<Rightarrow> (calls @ [(text_to_translate, src, tgt)], Inl e)
                | Inr response_text \<Rightarrow>
                    translate_items tr src tgt rest
                      (translated @ [\<lparr>entry_id = text_id, original_text = text_to_translate,
                                      translated_text = response_text,
                                      character_count = length text_to_translate\<rparr>])
                      (total_chars + length text_to_translate)
                      (calls @ [(text_to_translate, src, tgt)]))
      | (_, text_id) \<Rightarrow> (calls, Inl AttributeError))"

text \<open>
  \<^verbatim>\<open>process_translation\<close>; \<open>now\<close> is the clock reading taken when the result is built.
  The result is the list of adapter calls made and either the exception raised or the
  result dictionary.
\<close>

definition process_translation ::
  "datetime \<Rightarrow> json adapter \<Rightarrow> json \<Rightarrow> json call list \<times> (exn + json translation_result)" where
  "process_translation now tr translation_request =
     (case getitem translation_request ''source_language'' of
        Inl e \<Rightarrow> ([], Inl e)
      | Inr src \<Rightarrow>
     (case getitem translation_request ''target_language'' of
        Inl e \<Rightarrow> ([], Inl e)
      | Inr tgt \<Rightarrow>
     (case getitem translation_request ''texts'' of
        Inl e \<Rightarrow> ([], Inl e)
      | Inr texts \<Rightarrow>
     (case py_iter texts of
        Inl e \<Rightarrow> ([], Inl e)
      | Inr items \<Rightarrow>
     (case translate_items tr src tgt items [] 0 [] of
        (calls, Inl e) \<Rightarrow> (calls, Inl e)
      | (calls, Inr (translated, total_chars)) \<Rightarrow>
          (calls, Inr \<lparr>translation_metadata =
                       \<lparr>source_language = src, target_language = tgt,
                        total_texts = length items, total_characters = total_chars,
                        timestamp = isoformat now, processing_status = ''completed'',
                        method_tag = None\<rparr>,
                     translated_texts = translated,
                     original_request = Some translation_request\<rparr>))))))"

subsection \<open>Direct path: \<^verbatim>\<open>translate_direct\<close>\<close>

text \<open>
  The \<^verbatim>\<open>for i, text in enumerate(texts)\<close> loop of the client; the texts are strings, as
  the signature declares them. An exception of the adapter ends the loop and is raised
  again to the caller.
\<close>

fun direct_items ::
  "string adapter \<Rightarrow> string \<Rightarrow> string \<Rightarrow> nat \<Rightarrow> string list \<Rightarrow> entry list \<Rightarrow> nat
   \<Rightarrow> string call list \<Rightarrow> string call list \<times> (exn + entry list \<times> nat)" where
  "direct_items tr src tgt i [] translated total_chars calls =
     (calls, Inr (translated, total_chars))"
| "direct_items tr src tgt i (t # rest) translated total_chars calls =
     (if py_strip t = []
      then direct_items tr src tgt (i + 1) rest
             (translated @ [\<lparr>entry_id = JInt (int i), original_text = t,
                             translated_text = [], character_count = 0\<rparr>])
             total_chars calls
      else (case tr t src tgt of
              Inl e \<Rightarrow> (calls @ [(t, src, tgt)], Inl e)
            | Inr response_text \<Rightarrow>
                direct_items tr src tgt (i + 1) rest
                  (translated @ [\<lparr>entry_id = JInt (int i), original_text = t,
                                  translated_text = response_text,
                                  character_count = length t\<rparr>])
                  (total_chars + length t)
                  (calls @ [(t, src, tgt)])))"

definition translate_direct ::
  "datetime \<Rightarrow> string adapter \<Rightarrow> string list \<Rightarrow> string \<Rightarrow> string
   \<Rightarrow> string call list \<times> (exn + string translation_result)" where
  "translate_direct now tr texts src tgt =
     (case direct_items tr src tgt 0 texts [] 0 [] of
        (calls, Inl e) \<Rightarrow> (calls, Inl e)
      | (calls, Inr (translated, total_chars)) \<Rightarrow>
          (calls, Inr \<lparr>translation_metadata =
                         \<lparr>source_language = src, target_language = tgt,
                          total_texts = length texts, total_characters = total_chars,
                          timestamp = isoformat now, processing_status = ''completed'',
                          method_tag = Some ''direct''\<rparr>,
                       translated_texts = translated,
                       original_request = None\<rparr>))"

subsection \<open>Request Encoder: \<^verbatim>\<open>create_translation_request\<close>\<close>

text \<open>
  \<open>now_id\<close> and \<open>now_ts\<close> are the two clock readings of the function; an absent or
  empty \<open>request_id\<close> is replaced by a generated one.
\<close>

definition structured_texts :: "string list \<Rightarrow> json list" where
  "structured_texts texts =
     map (\<lambda>(i, t). JDict [(''id'', JInt (int i)), (''text'', JStr t)]) (enumerate 0 texts)"

definition create_translation_request ::
  "datetime \<Rightarrow> datetime \<Rightarrow> string list \<Rightarrow> string \<Rightarrow> string \<Rightarrow> string option \<Rightarrow> json" where
  "create_translation_request now_id now_ts texts src tgt request_id =
     (let rid = (case request_id of
                   None \<Rightarrow> ''req_'' @ strftime_stamp now_id
                 | Some r \<Rightarrow> if r = [] then ''req_'' @ strftime_stamp now_id else r)
      in JDict [(''request_id'', JStr rid),
                (''source_language'', JStr src),
                (''target_language'', JStr tgt),
                (''texts'', JList (structured_texts texts)),
                (''timestamp'', JStr (isoformat now_ts)),
                (''client_info'',
                   JDict [(''version'', JStr ''1.0''), (''client_type'', JStr ''python_client'')])])"

section \<open>The ingestion handler\<close>

text \<open>
  The collaborators of one invocation. \<open>read_request\<close> is lines 35 to 39 of the handler:
  \<^verbatim>\<open>get_object\<close>, reading and decoding the body, and \<^verbatim>\<open>json.loads\<close>, any of which may
  raise. \<open>put_object\<close> returns the exception it raises, if any. \<open>utcnow n\<close> is the
  \<open>n\<close>-th clock reading of the invocation. Logging is not modelled.
\<close>

record ingest_env =
  environ :: "string \<rightharpoonup> string"
  unquote_plus :: "string \<Rightarrow> string"
  read_request :: "json \<Rightarrow> string \<Rightarrow> exn + json"
  translate_text :: "json adapter"
  put_object :: "string \<Rightarrow> string \<Rightarrow> json translation_result \<Rightarrow> exn option"
  utcnow :: "nat \<Rightarrow> datetime"

text \<open>A completed write to the response store.\<close>

record put_call =
  put_bucket :: string
  put_key :: string
  put_body :: "json translation_result"
  processing_timestamp :: string

record ingest_state =
  puts :: "put_call list"
  adapter_calls :: "json call list"
  clock_reads :: nat

text \<open>
  The body the handler returns is \<^verbatim>\<open>json.dumps\<close> of a dict: \<open>Completed n\<close> stands for
  the success message with \<^verbatim>\<open>'processed_files': n\<close>, \<open>Failed e\<close> for the failure
  message with \<^verbatim>\<open>str(e)\<close>.
\<close>

datatype handler_body = Completed nat | Failed exn

text \<open>
  The dict a Lambda handler returns. The ingestion handler sets no \<^verbatim>\<open>'headers'\<close>
  (\<open>None\<close>); the retrieval handler always does.
\<close>

record 'b response =
  statusCode :: nat
  headers :: "(string \<times> string) list option"
  body :: 'b

definition upload_result_to_s3 ::
  "ingest_env \<Rightarrow> string \<Rightarrow> string \<Rightarrow> json translation_result \<Rightarrow> ingest_state
   \<Rightarrow> ingest_state \<times> exn option" where
  "upload_result_to_s3 env bucket key result_data st =
     (let stamp = isoformat (utcnow env (clock_reads st));
          st1 = st\<lparr>clock_reads := clock_reads st + 1\<rparr>
      in case put_object env bucket key result_data of
           Some e \<Rightarrow> (st1, Some e)
         | None \<Rightarrow>
             (st1\<lparr>puts := puts st1 @ [\<lparr>put_bucket = bucket, put_key = key,
                                         put_body = result_data,
                                         processing_timestamp = stamp\<rparr>]\<rparr>, None))"

text \<open>
  The inner \<^verbatim>\<open>try\<close> block of the loop body, for one object. Every exception raised in
  it is caught and the loop continues, so the block yields the next state only.
\<close>

definition process_object ::
  "ingest_env \<Rightarrow> string \<Rightarrow> json \<Rightarrow> string \<Rightarrow> ingest_state \<Rightarrow> ingest_state" where
  "process_object env response_bucket bucket key st =
     (case read_request env bucket key of
        Inl e \<Rightarrow> st
      | Inr translation_request \<Rightarrow>
          (case validate_translation_request translation_request of
             Inl e \<Rightarrow> st
           | Inr False \<Rightarrow> st
           | Inr True \<Rightarrow>
               (case process_translation (utcnow env (clock_reads st)) (translate_text env)
                       translation_request of
                  (calls, Inl e) \<Rightarrow> st\<lparr>adapter_calls := adapter_calls st @ calls\<rparr>
                | (calls, Inr result) \<Rightarrow>
                    (let st1 = st\<lparr>adapter_calls := adapter_calls st @ calls,
                                   clock_reads := clock_reads st + 1\<rparr>;
                         output_key =
                           generate_output_key (strftime_stamp (utcnow env (clock_reads st1))) key;
                         st2 = st1\<lparr>clock_reads := clock_reads st1 + 1\<rparr>
                     in fst (upload_result_to_s3 env response_bucket output_key result st2)))))"

text \<open>\<^verbatim>\<open>v[k1][k2]...\<close>, stopping at the first exception.\<close>

fun getpath :: "json \<Rightarrow> string list \<Rightarrow> exn + json" where
  "getpath v [] = Inr v"
| "getpath v (k # ks) = (case getitem v k of Inl e \<Rightarrow> Inl e | Inr x \<Rightarrow> getpath x ks)"

text \<open>
  The \<^verbatim>\<open>for record in event['Records']\<close> loop. Reading the bucket name and the key of a
  record happens outside the inner \<^verbatim>\<open>try\<close>: an exception there leaves the loop.
  \<^verbatim>\<open>unquote_plus\<close> of a key that is not a string raises \<^verbatim>\<open>AttributeError\<close>.
\<close>

fun process_records ::
  "ingest_env \<Rightarrow> string \<Rightarrow> json list \<Rightarrow> ingest_state \<Rightarrow> ingest_state \<times> exn option" where
  "process_records env response_bucket [] st = (st, None)"
| "process_records env response_bucket (r # rest) st =
     (case getpath r [''s3'', ''bucket'', ''name''] of
        Inl e \<Rightarrow> (st, Some e)
      | Inr bucket \<Rightarrow>
          (case getpath r [''s3'', ''object'', ''key''] of
             Inl e \<Rightarrow> (st, Some e)
           | Inr (JStr k) \<Rightarrow>
               process_records env response_bucket rest
                 (process_object env response_bucket bucket (unquote_plus env k) st)
           | Inr _ \<Rightarrow> (st, Some AttributeError)))"

definition lambda_handler ::
  "ingest_env \<Rightarrow> json \<Rightarrow> ingest_state \<Rightarrow> ingest_state \<times> handler_body response" where
  "lambda_handler env event st =
     (case environ env ''REQUEST_BUCKET'' of
        None \<Rightarrow> (st, \<lparr>statusCode = 500, headers = None, body = Failed (KeyError ''REQUEST_BUCKET'')\<rparr>)
      | Some request_bucket \<Rightarrow>
     (case environ env ''RESPONSE_BUCKET'' of
        None \<Rightarrow> (st, \<lparr>statusCode = 500, headers = None, body = Failed (KeyError ''RESPONSE_BUCKET'')\<rparr>)
      | Some response_bucket \<Rightarrow>
     (case getitem event ''Records'' of
        Inl e \<Rightarrow> (st, \<lparr>statusCode = 500, headers = None, body = Failed e\<rparr>)
      | Inr records \<Rightarrow>
     (case py_iter records of
        Inl e \<Rightarrow> (st, \<lparr>statusCode = 500, headers = None, body = Failed e\<rparr>)
      | Inr recs \<Rightarrow>
     (case process_records env response_bucket recs st of
        (st1, Some e) \<Rightarrow> (st1, \<lparr>statusCode = 500, headers = None, body = Failed e\<rparr>)
      | (st1, None) \<Rightarrow> (st1, \<lparr>statusCode = 200, headers = None, body = Completed (length recs)\<rparr>))))))"

section \<open>The retrieval handler\<close>

text \<open>
  \<^verbatim>\<open>json.dumps({'message': msg})\<close> for a message that needs no escaping, and the two
  headers every response of the handler carries.
\<close>

definition dumps_message :: "string \<Rightarrow> string" where
  "dumps_message msg =
     [CHR ''{'', CHR 0x22] @ ''message'' @ [CHR 0x22] @ '': '' @ [CHR 0x22] @ msg
     @ [CHR 0x22, CHR ''}'']"

definition cors_headers :: "(string \<times> string) list" where
  "cors_headers =
     [(''Content-Type'', ''application/json''), (''Access-Control-Allow-Origin'', ''*'')]"

text \<open>
  \<open>get_body bucket key\<close> is \<^verbatim>\<open>s3.get_object(Bucket=..., Key=...)\<close> followed by reading
  and decoding the body; \<open>response_bucket\<close> is the module-level variable. The first
  \<^verbatim>\<open>try\<close> catches \<^verbatim>\<open>KeyError\<close> only, so another exception raised while reading the
  path parameter leaves the handler (\<open>Inl\<close>).
\<close>

definition retrieval_lambda_handler ::
  "(string \<Rightarrow> json \<Rightarrow> exn + string) \<Rightarrow> string \<Rightarrow> json \<Rightarrow> exn + string response" where
  "retrieval_lambda_handler get_body response_bucket event =
     (case getpath event [''pathParameters'', ''request_id''] of
        Inl (KeyError k) \<Rightarrow>
          Inr \<lparr>statusCode = 400, headers = Some cors_headers,
               body = dumps_message ''Error: Missing request_id in path.''\<rparr>
      | Inl e \<Rightarrow> Inl e
      | Inr request_id \<Rightarrow>
          (case get_body response_bucket request_id of
             Inr file_content \<Rightarrow>
               Inr \<lparr>statusCode = 200, headers = Some cors_headers, body = file_content\<rparr>
           | Inl NoSuchKey \<Rightarrow>
               Inr \<lparr>statusCode = 404, headers = Some cors_headers,
                    body = dumps_message ''Translation not found or still processing.''\<rparr>
           | Inl e \<Rightarrow>
               Inr \<lparr>statusCode = 500, headers = Some cors_headers,
                    body = dumps_message ''An internal server error occurred.''\<rparr>))"

section \<open>The polling client\<close>

text \<open>The object-store operations the client performs, in order.\<close>

datatype s3_op =
    ListObjectsV2 string string
  | GetObject string string
  | PutObject string string

fun is_write :: "s3_op \<Rightarrow> bool" where
  "is_write (PutObject b k) = True"
| "is_write _ = False"

text \<open>\<^verbatim>\<open>len(v)\<close>.\<close>

definition py_len :: "json \<Rightarrow> exn + nat" where
  "py_len v =
     (case v of
        JList xs \<Rightarrow> Inr (length xs)
      | JDict kvs \<Rightarrow> Inr (length kvs)
      | JStr s \<Rightarrow> Inr (length s)
      | _ \<Rightarrow> Inl TypeError)"

text \<open>
  \<^verbatim>\<open>submit_translation_request\<close>: the key is built first, then the metadata of the
  upload reads three more fields of the request, then the object is put. \<open>put\<close>
  returns the exception \<^verbatim>\<open>put_object\<close> raises, if any.
\<close>

definition submit_translation_request ::
  "(string \<Rightarrow> string \<Rightarrow> json \<Rightarrow> exn option) \<Rightarrow> string \<Rightarrow> json \<Rightarrow> s3_op list \<times> (exn + string)" where
  "submit_translation_request put request_bucket request_data =
     (case getitem request_data ''request_id'' of
        Inl e \<Rightarrow> ([], Inl e)
      | Inr rid \<Rightarrow>
     (let filename = submit_filename (py_str rid)
      in case getitem request_data ''source_language'' of
           Inl e \<Rightarrow> ([], Inl e)
         | Inr src \<Rightarrow>
        (case getitem request_data ''target_language'' of
           Inl e \<Rightarrow> ([], Inl e)
         | Inr tgt \<Rightarrow>
        (case getitem request_data ''texts'' of
           Inl e \<Rightarrow> ([], Inl e)
         | Inr texts \<Rightarrow>
        (case py_len texts of
           Inl e \<Rightarrow> ([], Inl e)
         | Inr n \<Rightarrow>
        (case put request_bucket filename request_data of
           Some e \<Rightarrow> ([PutObject request_bucket filename], Inl e)
         | None \<Rightarrow> ([PutObject request_bucket filename], Inr filename)))))))"

text \<open>An element of \<^verbatim>\<open>response['Contents']\<close>.\<close>

record s3_object =
  Key :: string
  LastModified :: int

text \<open>\<^verbatim>\<open>max(xs, key=f)\<close> on a non-empty list: the first element with the greatest key.\<close>

definition max_by :: "('a \<Rightarrow> int) \<Rightarrow> 'a \<Rightarrow> 'a list \<Rightarrow> 'a" where
  "max_by f x xs = foldl (\<lambda>best y. if f best < f y then y else best) x xs"

text \<open>
  The world the wait loop runs in. In the \<open>k\<close>-th pass of the loop,
  \<open>list_objects_v2 k bucket prefix\<close> is the \<^verbatim>\<open>'Contents'\<close> of the listing (\<open>None\<close> when
  the key is absent) or the exception raised, \<open>get_json k bucket key\<close> is the object
  fetched and parsed, and \<open>call_duration k\<close> is the time these calls take. Clock
  readings, \<open>timeout\<close> and \<open>poll_interval\<close> are integers in one unit of time.
\<close>

record poll_env =
  list_objects_v2 :: "nat \<Rightarrow> string \<Rightarrow> string \<Rightarrow> exn + s3_object list option"
  get_json :: "nat \<Rightarrow> string \<Rightarrow> string \<Rightarrow> exn + json"
  call_duration :: "nat \<Rightarrow> int"

text \<open>\<^verbatim>\<open>get_translation_result\<close>: fetch, parse, and raise again what was raised.\<close>

definition get_translation_result :: "poll_env \<Rightarrow> nat \<Rightarrow> string \<Rightarrow> string \<Rightarrow> exn + json" where
  "get_translation_result env k response_bucket result_key =
     (case get_json env k response_bucket result_key of Inl e \<Rightarrow> Inl e | Inr v \<Rightarrow> Inr v)"

text \<open>
  The \<^verbatim>\<open>try\<close> block of one pass up to its \<^verbatim>\<open>return\<close> or its \<^verbatim>\<open>time.sleep\<close>: the
  operations performed and the result to return, if any. \<open>None\<close> covers both ways of
  going on: no match, and an exception caught by \<^verbatim>\<open>except Exception\<close>.
\<close>

definition poll_once :: "poll_env \<Rightarrow> nat \<Rightarrow> string \<Rightarrow> string \<Rightarrow> s3_op list \<times> json option" where
  "poll_once env k response_bucket pre =
     (case list_objects_v2 env k response_bucket pre of
        Inl e \<Rightarrow> ([ListObjectsV2 response_bucket pre], None)
      | Inr None \<Rightarrow> ([ListObjectsV2 response_bucket pre], None)
      | Inr (Some []) \<Rightarrow> ([ListObjectsV2 response_bucket pre], None)
      | Inr (Some (c # cs)) \<Rightarrow>
          (let latest_object = max_by LastModified c cs;
               result_key = Key latest_object
           in case get_translation_result env k response_bucket result_key of
                Inl e \<Rightarrow>
                  ([ListObjectsV2 response_bucket pre, GetObject response_bucket result_key], None)
              | Inr result_data \<Rightarrow>
                  ([ListObjectsV2 response_bucket pre, GetObject response_bucket result_key],
                   Some result_data)))"

text \<open>
  The \<^verbatim>\<open>while time.time() - start_time < timeout\<close> loop. \<open>now\<close> is the clock reading of
  the loop test; a pass that goes on takes \<open>call_duration env k\<close> and then sleeps
  \<open>poll_interval\<close>. \<^verbatim>\<open>time.sleep\<close> of a negative number raises \<^verbatim>\<open>ValueError\<close>; raised
  in the \<^verbatim>\<open>try\<close> block it is caught, and the \<^verbatim>\<open>time.sleep\<close> of the \<^verbatim>\<open>except\<close> block
  raises it again, out of the function. The result is \<open>None\<close> when the loop does not
  end; otherwise the operations performed and \<open>Inr None\<close> for the timeout,
  \<open>Inr (Some v)\<close> for a result, \<open>Inl e\<close> for an exception.
\<close>

partial_function (option) wait_loop ::
  "poll_env \<Rightarrow> string \<Rightarrow> string \<Rightarrow> int \<Rightarrow> int \<Rightarrow> int \<Rightarrow> int \<Rightarrow> nat \<Rightarrow> s3_op list
   \<Rightarrow> (s3_op list \<times> (exn + json option)) option" where
  "wait_loop env response_bucket pre timeout poll_interval start_time now k ops =
     (if now - start_time < timeout
      then (case poll_once env k response_bucket pre of
              (new_ops, Some result_data) \<Rightarrow> Some (ops @ new_ops, Inr (Some result_data))
            | (new_ops, None) \<Rightarrow>
                if poll_interval < 0 then Some (ops @ new_ops, Inl ValueError)
                else wait_loop env response_bucket pre timeout poll_interval start_time
                       (now + call_duration env k + poll_interval) (k + 1) (ops @ new_ops))
      else Some (ops, Inr None))"

declare wait_loop.simps [code]

definition wait_for_translation_result ::
  "poll_env \<Rightarrow> string \<Rightarrow> int \<Rightarrow> string \<Rightarrow> int \<Rightarrow> int
   \<Rightarrow> (s3_op list \<times> (exn + json option)) option" where
  "wait_for_translation_result env response_bucket start_time request_id timeout poll_interval =
     wait_loop env response_bucket (poll_prefix request_id) timeout poll_interval
       start_time start_time 0 []"

section \<open>Sample inputs\<close>

text \<open>
  Concrete inputs on which the properties below are evaluated: a clock reading, an
  adapter that answers every text, an adapter that fails on one text, the request of the
  specification's example, and a request whose items have every shape.
\<close>

definition ex_now :: datetime where
  "ex_now = \<lparr>year = 2025, month = 1, day = 2, hour = 3, minute = 4, second = 5,
             microsecond = 0\<rparr>"

definition ex_adapter :: "'l adapter" where
  "ex_adapter t src tgt = Inr (''es:'' @ t)"

definition ex_failing_adapter :: "'l adapter" where
  "ex_failing_adapter t src tgt =
     (if t = ''boom'' then Inl (ClientError ''unavailable'') else Inr (''es:'' @ t))"

definition ex_items :: "json list" where
  "ex_items = [JStr ''Hello'', JStr ''  '', JStr ''World'']"

definition ex_request :: json where
  "ex_request =
     JDict [(''source_language'', JStr ''en''), (''target_language'', JStr ''es''),
            (''texts'', JList ex_items)]"

definition ex_calls :: "json call list" where
  "ex_calls = [(''Hello'', JStr ''en'', JStr ''es''), (''World'', JStr ''en'', JStr ''es'')]"

definition ex_result :: "json translation_result" where
  "ex_result =
     \<lparr>translation_metadata =
        \<lparr>source_language = JStr ''en'', target_language = JStr ''es'', total_texts = 3,
         total_characters = 10, timestamp = ''2025-01-02T03:04:05'',
         processing_status = ''completed'', method_tag = None\<rparr>,
      translated_texts =
        [\<lparr>entry_id = JInt 0, original_text = ''Hello'', translated_text = ''es:Hello'',
          character_count = 5\<rparr>,
         \<lparr>entry_id = JInt 1, original_text = ''  '', translated_text = [],
          character_count = 0\<rparr>,
         \<lparr>entry_id = JInt 2, original_text = ''World'', translated_text = ''es:World'',
          character_count = 5\<rparr>],
      original_request = Some ex_request\<rparr>"

definition ex_texts :: "string list" where
  "ex_texts = [''Hello'', ''  '', ''World'']"

definition ex_direct_calls :: "string call list" where
  "ex_direct_calls = [(''Hello'', ''en'', ''es''), (''World'', ''en'', ''es'')]"

definition ex_direct_result :: "string translation_result" where
  "ex_direct_result =
     \<lparr>translation_metadata =
        \<lparr>source_language = ''en'', target_language = ''es'', total_texts = 3,
         total_characters = 10, timestamp = ''2025-01-02T03:04:05'',
         processing_status = ''completed'', method_tag = Some ''direct''\<rparr>,
      translated_texts =
        [\<lparr>entry_id = JInt 0, original_text = ''Hello'', translated_text = ''es:Hello'',
          character_count = 5\<rparr>,
         \<lparr>entry_id = JInt 1, original_text = ''  '', translated_text = [],
          character_count = 0\<rparr>,
         \<lparr>entry_id = JInt 2, original_text = ''World'', translated_text = ''es:World'',
          character_count = 5\<rparr>],
      original_request = None\<rparr>"

definition ex_mixed_items :: "json list" where
  "ex_mixed_items =
     [JStr ''Hi'', JDict [(''text'', JStr ''World'')], JInt 5,
      JDict [(''id'', JInt 9), (''text'', JStr ''x'')], JNull]"

definition ex_mixed_request :: json where
  "ex_mixed_request =
     JDict [(''source_language'', JStr ''en''), (''target_language'', JStr ''es''),
            (''texts'', JList ex_mixed_items)]"

definition ex_mixed_calls :: "json call list" where
  "ex_mixed_calls =
     [(''Hi'', JStr ''en'', JStr ''es''), (''World'', JStr ''en'', JStr ''es''),
      (''5'', JStr ''en'', JStr ''es''), (''x'', JStr ''en'', JStr ''es''),
      (''None'', JStr ''en'', JStr ''es'')]"

definition ex_mixed_result :: "json translation_result" where
  "ex_mixed_result =
     \<lparr>translation_metadata =
        \<lparr>source_language = JStr ''en'', target_language = JStr ''es'', total_texts = 5,
         total_characters = 13, timestamp = ''2025-01-02T03:04:05'',
         processing_status = ''completed'', method_tag = None\<rparr>,
      translated_texts =
        [\<lparr>entry_id = JInt 0, original_text = ''Hi'', translated_text = ''es:Hi'',
          character_count = 2\<rparr>,
         \<lparr>entry_id = JInt 1, original_text = ''World'', translated_text = ''es:World'',
          character_count = 5\<rparr>,
         \<lparr>entry_id = JInt 2, original_text = ''5'', translated_text = ''es:5'',
          character_count = 1\<rparr>,
         \<lparr>entry_id = JInt 9, original_text = ''x'', translated_text = ''es:x'',
          character_count = 1\<rparr>,
         \<lparr>entry_id = JInt 4, original_text = ''None'', translated_text = ''es:None'',
          character_count = 4\<rparr>],
      original_request = Some ex_mixed_request\<rparr>"

text \<open>
  An invocation environment with both buckets configured, a request store that holds
  the example request under \<^verbatim>\<open>a.json\<close> and a request without target language and
  texts under \<^verbatim>\<open>bad.json\<close>, keys without escapes, and a response store that accepts
  every write; an event record for a key; and the initial state.
\<close>

definition ex_incomplete_fields :: "(string \<times> json) list" where
  "ex_incomplete_fields = [(''request_id'', JStr ''r1''), (''source_language'', JStr ''en'')]"

definition ex_env :: ingest_env where
  "ex_env =
     \<lparr>environ = [''REQUEST_BUCKET'' \<mapsto> ''requests'', ''RESPONSE_BUCKET'' \<mapsto> ''responses''],
      unquote_plus = (\<lambda>k. k),
      read_request = (\<lambda>b k. if k = ''a.json'' then Inr ex_request
                            else if k = ''bad.json'' then Inr (JDict ex_incomplete_fields)
                            else Inl NoSuchKey),
      translate_text = ex_adapter,
      put_object = (\<lambda>b k r. None),
      utcnow = (\<lambda>n. ex_now)\<rparr>"

definition ex_record :: "string \<Rightarrow> json" where
  "ex_record k =
     JDict [(''s3'', JDict [(''bucket'', JDict [(''name'', JStr ''requests'')]),
                            (''object'', JDict [(''key'', JStr k)])])]"

definition ex_event :: json where
  "ex_event =
     JDict [(''Records'',
             JList [ex_record ''bad.json'', ex_record ''a.json'', ex_record ''missing.json''])]"

definition ex_broken_event :: json where
  "ex_broken_event = JDict [(''Records'', JList [ex_record ''a.json'', JDict []])]"

definition ex_state :: ingest_state where
  "ex_state = \<lparr>puts = [], adapter_calls = [], clock_reads = 0\<rparr>"

definition ex_state_done :: ingest_state where
  "ex_state_done =
     \<lparr>puts = [\<lparr>put_bucket = ''responses'', put_key = ''a_translated_20250102_030405.json'',
               put_body = ex_result, processing_timestamp = ''2025-01-02T03:04:05''\<rparr>],
      adapter_calls = ex_calls, clock_reads = 3\<rparr>"

text \<open>
  A world for the wait loop in which every listing succeeds and finds nothing and the
  calls take no time; and one in which a result object is present from the third pass on.
\<close>

definition ex_poll_env :: poll_env where
  "ex_poll_env =
     \<lparr>list_objects_v2 = (\<lambda>k b p. Inr None),
      get_json = (\<lambda>k b key. Inl NoSuchKey),
      call_duration = (\<lambda>k. 0)\<rparr>"

definition ex_listing :: "s3_op" where
  "ex_listing = ListObjectsV2 ''responses'' ''translation_request_r1_translated''"

text \<open>
  The predicates the properties speak with: an item is non-blank when its text is a
  string that is not empty after trimming; an item lacks an id when it is not a dict or
  has no \<^verbatim>\<open>'id'\<close> key; an item is free-form when it is neither a string nor a dict
  with a \<^verbatim>\<open>'text'\<close> key.
\<close>

definition non_blank_item :: "json \<Rightarrow> bool" where
  "non_blank_item text_item =
     (case fst (item_text_id text_item 0) of JStr s \<Rightarrow> py_strip s \<noteq> [] | _ \<Rightarrow> False)"

definition lacks_id :: "json \<Rightarrow> bool" where
  "lacks_id text_item =
     (case text_item of JDict kvs \<Rightarrow> map_of kvs ''id'' = None | _ \<Rightarrow> True)"

definition free_form_item :: "json \<Rightarrow> bool" where
  "free_form_item text_item =
     (case text_item of
        JStr s \<Rightarrow> False
      | JDict kvs \<Rightarrow> map_of kvs ''text'' = None
      | _ \<Rightarrow> True)"

text \<open>
  No listing of the wait loop ever finds an object under the prefix: each returns no
  \<^verbatim>\<open>'Contents'\<close>, an empty one, or raises.
\<close>

definition no_match :: "poll_env \<Rightarrow> string \<Rightarrow> string \<Rightarrow> bool" where
  "no_match env response_bucket pre =
     (\<forall>k. case list_objects_v2 env k response_bucket pre of
            Inr (Some (c # cs)) \<Rightarrow> False
          | _ \<Rightarrow> True)"

text \<open>
  A record is readable when the handler can take a bucket name and a string key from it;
  an invocation completes when both bucket variables are set, the event has
  \<^verbatim>\<open>'Records'\<close> that can be iterated, and every record is readable.
\<close>

definition readable_record :: "json \<Rightarrow> bool" where
  "readable_record r =
     (case getpath r [''s3'', ''bucket'', ''name''] of
        Inl e \<Rightarrow> False
      | Inr bucket \<Rightarrow>
          (case getpath r [''s3'', ''object'', ''key''] of
             Inr (JStr k) \<Rightarrow> True
           | _ \<Rightarrow> False))"

definition completes :: "ingest_env \<Rightarrow> json \<Rightarrow> bool" where
  "completes env event =
     (environ env ''REQUEST_BUCKET'' \<noteq> None \<and> environ env ''RESPONSE_BUCKET'' \<noteq> None \<and>
      (case getitem event ''Records'' of
         Inl e \<Rightarrow> False
       | Inr records \<Rightarrow>
           (case py_iter records of Inl e \<Rightarrow> False | Inr recs \<Rightarrow> list_all readable_record recs)))"

section \<open>Properties\<close>

subsection \<open>Key derivation\<close>

text \<open>
  Claim C1 says that for every request id and every timestamp the key derived by the
  ingestion handler begins with the prefix the polling client lists for. For the request
  id \<^verbatim>\<open>a/\<close> the submit key is \<^verbatim>\<open>translation_request_a/.json\<close>, whose last path
  component \<^verbatim>\<open>.json\<close> has no extension for \<^verbatim>\<open>os.path.splitext\<close>: nothing is
  stripped, the derived key is \<^verbatim>\<open>translation_request_a/.json_translated_<ts>.json\<close>,
  and it does not begin with the polled prefix \<^verbatim>\<open>translation_request_a/_translated\<close>,
  whatever the timestamp.
\<close>

theorem C1_output_key_misses_poll_prefix:
  "\<not> startswith (generate_output_key stamp (submit_filename ''a/'')) (poll_prefix ''a/'')"
  by (simp add: startswith_def generate_output_key_def submit_filename_def poll_prefix_def
      splitext_def skip_dots.simps)

text \<open>
  For a request id without \<^verbatim>\<open>/\<close> the extension is stripped and the derived key
  does begin with the polled prefix, for every timestamp.
\<close>

lemma rfind_absent: "c \<notin> set s \<Longrightarrow> rfind c s = - 1"
  by (induction s) (auto simp: Let_def)

lemma rfind_last_occurrence: "c \<notin> set ys \<Longrightarrow> rfind c (xs @ c # ys) = int (length xs)"
  by (induction xs) (auto simp: Let_def rfind_absent)

lemma splitext_extension:
  assumes "CHR ''/'' \<notin> set base" "CHR ''/'' \<notin> set ext" "CHR ''.'' \<notin> set ext"
      and "base = c # rest" "c \<noteq> CHR ''.''"
  shows "splitext (base @ CHR ''.'' # ext) = (base, CHR ''.'' # ext)"
proof -
  let ?p = "base @ CHR ''.'' # ext"
  have sep: "rfind CHR ''/'' ?p = - 1"
    using assms(1,2) by (intro rfind_absent) auto
  have dot: "rfind CHR ''.'' ?p = int (length base)"
    using assms(3) by (rule rfind_last_occurrence)
  have skip: "skip_dots ?p 0 (int (length base))"
    using assms(4,5) by (subst skip_dots.simps) simp
  have "splitext ?p = (take (length base) ?p, drop (length base) ?p)"
    unfolding splitext_def sep dot using skip by (simp add: Let_def)
  then show ?thesis by simp
qed

lemma splitext_submit_filename:
  assumes "CHR ''/'' \<notin> set request_id"
  shows "splitext (submit_filename request_id) =
           (''translation_request_'' @ request_id, ''.json'')"
proof -
  have "splitext ((''translation_request_'' @ request_id) @ CHR ''.'' # ''json'') =
          (''translation_request_'' @ request_id, CHR ''.'' # ''json'')"
    using assms by (intro splitext_extension [where c = "CHR ''t''"
          and rest = "''ranslation_request_'' @ request_id"]) auto
  then show ?thesis by (simp add: submit_filename_def)
qed

lemma output_key_matches_poll_prefix:
  assumes "CHR ''/'' \<notin> set request_id"
  shows "startswith (generate_output_key stamp (submit_filename request_id))
           (poll_prefix request_id)"
  using splitext_submit_filename [OF assms]
  by (simp add: generate_output_key_def startswith_def poll_prefix_def)

text \<open>
  The key \<^verbatim>\<open>submit_translation_request\<close> returns is the submit file name of the
  request's id, and the one operation it performs is the write of that key.
\<close>

lemma submit_key:
  assumes "submit_translation_request put request_bucket request_data = (ops, Inr key)"
  shows "\<exists>rid. getitem request_data ''request_id'' = Inr rid \<and>
           key = submit_filename (py_str rid) \<and> ops = [PutObject request_bucket key]"
  using assms unfolding submit_translation_request_def
  by (auto simp: Let_def split: sum.splits option.splits)

subsection \<open>The translation loops\<close>

text \<open>A text is blank for \<^verbatim>\<open>not text.strip()\<close> exactly when all its characters are whitespace.\<close>

lemma py_strip_empty_iff: "py_strip s = [] \<longleftrightarrow> (\<forall>c\<in>set s. is_space c)"
proof
  assume "py_strip s = []"
  then have all: "\<forall>x\<in>set (dropWhile is_space s). is_space x"
    by (simp add: py_strip_def dropWhile_eq_Nil_conv)
  have "dropWhile is_space s = []"
  proof (rule ccontr)
    assume ne: "dropWhile is_space s \<noteq> []"
    then have "\<not> is_space (hd (dropWhile is_space s))" by (rule hd_dropWhile)
    moreover from ne have "hd (dropWhile is_space s) \<in> set (dropWhile is_space s)" by simp
    ultimately show False using all by blast
  qed
  then show "\<forall>c\<in>set s. is_space c" by (simp add: dropWhile_eq_Nil_conv)
next
  assume "\<forall>c\<in>set s. is_space c"
  then show "py_strip s = []"
    by (auto simp: py_strip_def dest: set_dropWhileD)
qed

lemma translate_items_calls:
  "translate_items tr src tgt items acc n calls = (calls', res) \<Longrightarrow>
     \<exists>new. calls' = calls @ new \<and> (\<forall>c\<in>set new. py_strip (fst c) \<noteq> [] \<and> snd c = (src, tgt))"
proof (induction items arbitrary: acc n calls)
  case Nil
  then show ?case by simp
next
  case (Cons x xs)
  show ?case
  proof (cases "item_text_id x (length acc)")
    case (Pair t i)
    show ?thesis
    proof (cases t)
      case (JStr s)
      show ?thesis
      proof (cases "py_strip s = []")
        case True
        with Cons.prems Pair JStr show ?thesis
          using Cons.IH by simp
      next
        case False
        show ?thesis
        proof (cases "tr s src tgt")
          case (Inl e)
          with Cons.prems Pair JStr False show ?thesis by auto
        next
          case (Inr y)
          with Cons.prems Pair JStr False
          have "translate_items tr src tgt xs
                  (acc @ [\<lparr>entry_id = i, original_text = s, translated_text = y,
                           character_count = length s\<rparr>])
                  (n + length s) (calls @ [(s, src, tgt)]) = (calls', res)"
            by simp
          from Cons.IH [OF this] obtain new where
            "calls' = (calls @ [(s, src, tgt)]) @ new"
            "\<forall>c\<in>set new. py_strip (fst c) \<noteq> [] \<and> snd c = (src, tgt)" by blast
          with False show ?thesis by (intro exI [of _ "(s, src, tgt) # new"]) simp
        qed
      qed
    qed (use Cons.prems Pair in auto)
  qed
qed

lemma translate_items_result:
  "translate_items tr src tgt items acc n calls = (calls', Inr (acc', n')) \<Longrightarrow>
     \<exists>new. acc' = acc @ new \<and> length new = length items \<and>
       (\<forall>i<length items. \<exists>s.
           item_text_id (items ! i) (length acc + i) = (JStr s, entry_id (new ! i)) \<and>
           original_text (new ! i) = s \<and>
           (if py_strip s = []
            then translated_text (new ! i) = [] \<and> character_count (new ! i) = 0
            else tr s src tgt = Inr (translated_text (new ! i)) \<and>
                 character_count (new ! i) = length s)) \<and>
       n' = n + sum_list (map character_count new) \<and>
       calls' = calls @ map (\<lambda>e. (original_text e, src, tgt))
                          (filter (\<lambda>e. py_strip (original_text e) \<noteq> []) new)"
proof (induction items arbitrary: acc n calls)
  case Nil
  then show ?case by simp
next
  case (Cons x xs)
  obtain t i where ti: "item_text_id x (length acc) = (t, i)" by (cases "item_text_id x (length acc)")
  from Cons.prems ti obtain s where t: "t = JStr s" by (cases t) auto
  define y where "y = (if py_strip s = [] then [] else (case tr s src tgt of Inr r \<Rightarrow> r | Inl _ \<Rightarrow> []))"
  define e where "e = \<lparr>entry_id = i, original_text = s, translated_text = y,
                        character_count = (if py_strip s = [] then 0 else length s)\<rparr>"
  have ok: "py_strip s \<noteq> [] \<Longrightarrow> tr s src tgt = Inr y"
    using Cons.prems ti t by (auto simp: y_def split: sum.splits)
  have step: "translate_items tr src tgt xs (acc @ [e]) (n + character_count e)
                (calls @ (if py_strip s = [] then [] else [(s, src, tgt)])) = (calls', Inr (acc', n'))"
    using Cons.prems ti t ok by (auto simp: e_def y_def split: sum.splits)
  from Cons.IH [OF step] obtain new where new:
    "acc' = (acc @ [e]) @ new" "length new = length xs"
    "\<forall>i<length xs. \<exists>s.
        item_text_id (xs ! i) (length (acc @ [e]) + i) = (JStr s, entry_id (new ! i)) \<and>
        original_text (new ! i) = s \<and>
        (if py_strip s = []
         then translated_text (new ! i) = [] \<and> character_count (new ! i) = 0
         else tr s src tgt = Inr (translated_text (new ! i)) \<and>
              character_count (new ! i) = length s)"
    "n' = n + character_count e + sum_list (map character_count new)"
    "calls' = (calls @ (if py_strip s = [] then [] else [(s, src, tgt)])) @
        map (\<lambda>e. (original_text e, src, tgt)) (filter (\<lambda>e. py_strip (original_text e) \<noteq> []) new)"
    by blast
  have head: "item_text_id x (length acc) = (JStr s, entry_id e) \<and> original_text e = s \<and>
        (if py_strip s = []
         then translated_text e = [] \<and> character_count e = 0
         else tr s src tgt = Inr (translated_text e) \<and> character_count e = length s)"
    using ti t ok by (simp add: e_def y_def)
  show ?case
  proof (intro exI [of _ "e # new"] conjI allI impI)
    show "acc' = acc @ e # new" using new(1) by simp
    show "length (e # new) = length (x # xs)" using new(2) by simp
    show "n' = n + sum_list (map character_count (e # new))" using new(4) by simp
    show "calls' = calls @ map (\<lambda>e. (original_text e, src, tgt))
            (filter (\<lambda>e. py_strip (original_text e) \<noteq> []) (e # new))"
      using new(5) by (simp add: e_def)
  next
    fix j assume j: "j < length (x # xs)"
    show "\<exists>s. item_text_id ((x # xs) ! j) (length acc + j) = (JStr s, entry_id ((e # new) ! j)) \<and>
           original_text ((e # new) ! j) = s \<and>
           (if py_strip s = []
            then translated_text ((e # new) ! j) = [] \<and> character_count ((e # new) ! j) = 0
            else tr s src tgt = Inr (translated_text ((e # new) ! j)) \<and>
                 character_count ((e # new) ! j) = length s)"
    proof (cases j)
      case 0
      with head show ?thesis by auto
    next
      case (Suc k)
      with j have "k < length xs" by simp
      with new(3) Suc show ?thesis by simp
    qed
  qed
qed

lemma process_translation_Inr:
  assumes "process_translation now tr req = (calls, Inr r)"
  obtains src tgt texts items where
    "getitem req ''source_language'' = Inr src" "getitem req ''target_language'' = Inr tgt"
    "getitem req ''texts'' = Inr texts" "py_iter texts = Inr items"
    "translate_items tr src tgt items [] 0 [] =
       (calls, Inr (translated_texts r, total_characters (translation_metadata r)))"
    "source_language (translation_metadata r) = src"
    "target_language (translation_metadata r) = tgt"
    "total_texts (translation_metadata r) = length items"
  using assms unfolding process_translation_def
  by (auto split: sum.splits prod.splits)

lemma process_translation_calls:
  assumes "process_translation now tr req = (calls, res)"
  shows "\<forall>c\<in>set calls. py_strip (fst c) \<noteq> []"
proof (cases "\<exists>src tgt items. getitem req ''source_language'' = Inr src \<and>
    getitem req ''target_language'' = Inr tgt \<and>
    (\<exists>texts. getitem req ''texts'' = Inr texts \<and> py_iter texts = Inr items)")
  case True
  then obtain src tgt texts items where h:
    "getitem req ''source_language'' = Inr src" "getitem req ''target_language'' = Inr tgt"
    "getitem req ''texts'' = Inr texts" "py_iter texts = Inr items" by blast
  obtain cs rs where t: "translate_items tr src tgt items [] 0 [] = (cs, rs)"
    by (cases "translate_items tr src tgt items [] 0 []")
  with assms h have "calls = cs"
    unfolding process_translation_def by (auto split: sum.splits prod.splits)
  with translate_items_calls [OF t] show ?thesis by auto
next
  case False
  with assms have "calls = []"
    unfolding process_translation_def by (auto split: sum.splits prod.splits)
  then show ?thesis by simp
qed

lemma sum_character_count:
  assumes "\<forall>e\<in>set es. character_count e =
             (if py_strip (original_text e) = [] then 0 else length (original_text e))"
  shows "sum_list (map character_count es) =
         sum_list (map (\<lambda>e. length (original_text e))
                    (filter (\<lambda>e. py_strip (original_text e) \<noteq> []) es))"
  using assms by (induction es) auto

lemma direct_items_calls:
  "direct_items tr src tgt i texts acc n calls = (calls', res) \<Longrightarrow>
     \<exists>new. calls' = calls @ new \<and> (\<forall>c\<in>set new. py_strip (fst c) \<noteq> [])"
proof (induction texts arbitrary: i acc n calls)
  case Nil
  then show ?case by simp
next
  case (Cons t ts)
  show ?case
  proof (cases "py_strip t = []")
    case True
    with Cons.prems Cons.IH show ?thesis by simp
  next
    case False
    show ?thesis
    proof (cases "tr t src tgt")
      case (Inl e)
      with Cons.prems False show ?thesis by auto
    next
      case (Inr y)
      with Cons.prems False
      have "direct_items tr src tgt (i + 1) ts
              (acc @ [\<lparr>entry_id = JInt (int i), original_text = t, translated_text = y,
                       character_count = length t\<rparr>])
              (n + length t) (calls @ [(t, src, tgt)]) = (calls', res)"
        by simp
      from Cons.IH [OF this] obtain new where
        "calls' = (calls @ [(t, src, tgt)]) @ new" "\<forall>c\<in>set new. py_strip (fst c) \<noteq> []"
        by blast
      with False show ?thesis by (intro exI [of _ "(t, src, tgt) # new"]) simp
    qed
  qed
qed

lemma direct_items_result:
  "direct_items tr src tgt i texts acc n calls = (calls', Inr (acc', n')) \<Longrightarrow>
     \<exists>new. acc' = acc @ new \<and> length new = length texts \<and>
       (\<forall>j<length texts.
           entry_id (new ! j) = JInt (int (i + j)) \<and>
           original_text (new ! j) = texts ! j \<and>
           (if py_strip (texts ! j) = []
            then translated_text (new ! j) = [] \<and> character_count (new ! j) = 0
            else tr (texts ! j) src tgt = Inr (translated_text (new ! j)) \<and>
                 character_count (new ! j) = length (texts ! j))) \<and>
       n' = n + sum_list (map character_count new) \<and>
       calls' = calls @ map (\<lambda>t. (t, src, tgt)) (filter (\<lambda>t. py_strip t \<noteq> []) texts)"
proof (induction texts arbitrary: i acc n calls)
  case Nil
  then show ?case by simp
next
  case (Cons t ts)
  define y where "y = (if py_strip t = [] then [] else (case tr t src tgt of Inr r \<Rightarrow> r | Inl _ \<Rightarrow> []))"
  define e where "e = \<lparr>entry_id = JInt (int i), original_text = t, translated_text = y,
                        character_count = (if py_strip t = [] then 0 else length t)\<rparr>"
  have ok: "py_strip t \<noteq> [] \<Longrightarrow> tr t src tgt = Inr y"
    using Cons.prems by (auto simp: y_def split: sum.splits)
  have step: "direct_items tr src tgt (i + 1) ts (acc @ [e]) (n + character_count e)
                (calls @ (if py_strip t = [] then [] else [(t, src, tgt)])) = (calls', Inr (acc', n'))"
    using Cons.prems ok by (auto simp: e_def y_def split: sum.splits)
  from Cons.IH [OF step] obtain new where new:
    "acc' = (acc @ [e]) @ new" "length new = length ts"
    "\<forall>j<length ts.
        entry_id (new ! j) = JInt (int (i + 1 + j)) \<and>
        original_text (new ! j) = ts ! j \<and>
        (if py_strip (ts ! j) = []
         then translated_text (new ! j) = [] \<and> character_count (new ! j) = 0
         else tr (ts ! j) src tgt = Inr (translated_text (new ! j)) \<and>
              character_count (new ! j) = length (ts ! j))"
    "n' = n + character_count e + sum_list (map character_count new)"
    "calls' = (calls @ (if py_strip t = [] then [] else [(t, src, tgt)])) @
        map (\<lambda>t. (t, src, tgt)) (filter (\<lambda>t. py_strip t \<noteq> []) ts)"
    by blast
  have head: "entry_id e = JInt (int i) \<and> original_text e = t \<and>
        (if py_strip t = []
         then translated_text e = [] \<and> character_count e = 0
         else tr t src tgt = Inr (translated_text e) \<and> character_count e = length t)"
    using ok by (simp add: e_def y_def)
  show ?case
  proof (intro exI [of _ "e # new"] conjI allI impI)
    show "acc' = acc @ e # new" using new(1) by simp
    show "length (e # new) = length (t # ts)" using new(2) by simp
    show "n' = n + sum_list (map character_count (e # new))" using new(4) by simp
    show "calls' = calls @ map (\<lambda>t. (t, src, tgt)) (filter (\<lambda>t. py_strip t \<noteq> []) (t # ts))"
      using new(5) by simp
  next
    fix j assume j: "j < length (t # ts)"
    show "entry_id ((e # new) ! j) = JInt (int (i + j))"
      using j new(3) head by (cases j) auto
    show "original_text ((e # new) ! j) = (t # ts) ! j"
      using j new(3) head by (cases j) auto
    show "if py_strip ((t # ts) ! j) = []
          then translated_text ((e # new) ! j) = [] \<and> character_count ((e # new) ! j) = 0
          else tr ((t # ts) ! j) src tgt = Inr (translated_text ((e # new) ! j)) \<and>
               character_count ((e # new) ! j) = length ((t # ts) ! j)"
    proof (cases j)
      case 0
      with head show ?thesis by simp
    next
      case (Suc k)
      with j have "k < length ts" by simp
      with new(3) Suc show ?thesis by simp
    qed
  qed
qed

text \<open>When every adapter call succeeds the loop returns a result.\<close>

lemma direct_items_all_ok:
  "(\<forall>u\<in>set texts. py_strip u \<noteq> [] \<longrightarrow> (\<exists>x. tr u src tgt = Inr x)) \<Longrightarrow>
     \<exists>acc' n'. direct_items tr src tgt i texts acc n calls =
        (calls @ map (\<lambda>t. (t, src, tgt)) (filter (\<lambda>t. py_strip t \<noteq> []) texts), Inr (acc', n'))"
proof (induction texts arbitrary: i acc n calls)
  case Nil
  then show ?case by simp
next
  case (Cons t ts)
  show ?case
  proof (cases "py_strip t = []")
    case True
    with Cons show ?thesis by simp
  next
    case False
    with Cons.prems obtain x where x: "tr t src tgt = Inr x" by auto
    from Cons.prems have "\<forall>u\<in>set ts. py_strip u \<noteq> [] \<longrightarrow> (\<exists>x. tr u src tgt = Inr x)" by simp
    from Cons.IH [OF this, of "i + 1"
        "acc @ [\<lparr>entry_id = JInt (int i), original_text = t, translated_text = x,
                 character_count = length t\<rparr>]" "n + length t" "calls @ [(t, src, tgt)]"]
    show ?thesis using False x by simp
  qed
qed

text \<open>The first failing adapter call ends the loop with its exception.\<close>

lemma direct_items_first_failure:
  "py_strip t \<noteq> [] \<Longrightarrow> tr t src tgt = Inl e \<Longrightarrow>
   (\<forall>u\<in>set pre. py_strip u \<noteq> [] \<longrightarrow> (\<exists>x. tr u src tgt = Inr x)) \<Longrightarrow>
     direct_items tr src tgt i (pre @ t # post) acc n calls =
       (calls @ map (\<lambda>u. (u, src, tgt)) (filter (\<lambda>u. py_strip u \<noteq> []) pre) @ [(t, src, tgt)],
        Inl e)"
proof (induction pre arbitrary: i acc n calls)
  case Nil
  then show ?case by simp
next
  case (Cons p ps)
  show ?case
  proof (cases "py_strip p = []")
    case True
    with Cons show ?thesis by simp
  next
    case False
    with Cons.prems obtain x where x: "tr p src tgt = Inr x" by auto
    from Cons.prems have rest: "\<forall>u\<in>set ps. py_strip u \<noteq> [] \<longrightarrow> (\<exists>x. tr u src tgt = Inr x)"
      by simp
    show ?thesis
      using Cons.IH [OF Cons.prems(1) Cons.prems(2) rest] False x by simp
  qed
qed

subsection \<open>The sample inputs, evaluated\<close>

lemma ex_isoformat: "isoformat ex_now = ''2025-01-02T03:04:05''"
  by code_simp

lemma ex_strftime: "strftime_stamp ex_now = ''20250102_030405''"
  by code_simp

lemma ex_valid: "validate_translation_request ex_request = Inr True"
  by (simp add: validate_translation_request_def ex_request_def ex_items_def contains_def getitem_def)

lemma ex_translate_items:
  "translate_items ex_adapter (JStr ''en'') (JStr ''es'') ex_items [] 0 [] =
     (ex_calls, Inr (translated_texts ex_result, 10))"
  by (simp add: ex_items_def item_text_id_def py_strip_def is_space_def ex_adapter_def
      ex_calls_def ex_result_def py_str_def)

lemma ex_items_length: "length ex_items = 3"
  by (simp add: ex_items_def)

lemma ex_process: "process_translation ex_now ex_adapter ex_request = (ex_calls, Inr ex_result)"
  by (simp add: process_translation_def ex_request_def getitem_def py_iter_def
      ex_translate_items ex_isoformat ex_result_def ex_items_length)

lemma validate_True:
  assumes "validate_translation_request req = Inr True"
  obtains kvs x xs where "req = JDict kvs" "map_of kvs ''texts'' = Some (JList (x # xs))"
    "map_of kvs ''source_language'' \<noteq> None" "map_of kvs ''target_language'' \<noteq> None"
proof -
  from assms obtain t where t: "getitem req ''texts'' = Inr t"
    unfolding validate_translation_request_def by (auto split: sum.splits bool.splits)
  then obtain kvs where kvs: "req = JDict kvs"
    by (cases req) (auto simp: getitem_def)
  from assms t obtain x xs where "t = JList (x # xs)"
    unfolding validate_translation_request_def
    by (cases t) (auto split: sum.splits bool.splits if_splits simp: neq_Nil_conv)
  moreover from assms kvs have "map_of kvs ''source_language'' \<noteq> None"
    "map_of kvs ''target_language'' \<noteq> None"
    unfolding validate_translation_request_def
    by (auto split: sum.splits bool.splits if_splits simp: contains_def map_of_eq_None_iff)
  ultimately show ?thesis using that kvs t by (auto simp: getitem_def split: option.splits)
qed

subsection \<open>The result of the translation step\<close>

lemma entries_of_items:
  assumes "validate_translation_request req = Inr True"
      and "process_translation now tr req = (calls, Inr r)"
  obtains items where
    "getitem req ''texts'' = Inr (JList items)" "items \<noteq> []"
    "translate_items tr (source_language (translation_metadata r))
        (target_language (translation_metadata r)) items [] 0 [] =
       (calls, Inr (translated_texts r, total_characters (translation_metadata r)))"
proof -
  from assms(1) obtain kvs x xs where v: "req = JDict kvs"
    "map_of kvs ''texts'' = Some (JList (x # xs))" by (rule validate_True)
  from assms(2) obtain src tgt texts items where p:
    "getitem req ''texts'' = Inr texts" "py_iter texts = Inr items"
    "translate_items tr src tgt items [] 0 [] =
       (calls, Inr (translated_texts r, total_characters (translation_metadata r)))"
    "source_language (translation_metadata r) = src"
    "target_language (translation_metadata r) = tgt"
    by (rule process_translation_Inr)
  from v p(1) have "texts = JList (x # xs)" by (simp add: getitem_def)
  with p(2) have "items = x # xs" by (simp add: py_iter_def)
  with p \<open>texts = JList (x # xs)\<close> show ?thesis using that by simp
qed

text \<open>
  Claim C2, as amended. For every request that passes validation and for which the
  translation step returns a result, \<^verbatim>\<open>'translations'\<close> has exactly one entry per text
  item, blank items included, in the order of the input; the entry of a non-blank item
  carries the text the adapter returned for it and the entry of a blank item the empty
  string; and \<^verbatim>\<open>'total_characters'\<close> is the sum of the untrimmed lengths of the texts
  of the non-blank items.
\<close>

theorem C2_one_entry_per_item:
  assumes "validate_translation_request req = Inr True"
      and "process_translation now tr req = (calls, Inr r)"
  shows "\<exists>items. getitem req ''texts'' = Inr (JList items) \<and>
           length (translated_texts r) = length items \<and>
           (\<forall>i<length items. \<exists>s.
               fst (item_text_id (items ! i) i) = JStr s \<and>
               original_text (translated_texts r ! i) = s \<and>
               (if py_strip s = []
                then translated_text (translated_texts r ! i) = []
                else tr s (source_language (translation_metadata r))
                       (target_language (translation_metadata r)) =
                     Inr (translated_text (translated_texts r ! i)))) \<and>
           total_characters (translation_metadata r) =
             sum_list (map length (filter (\<lambda>s. py_strip s \<noteq> [])
                                     (map original_text (translated_texts r))))"
proof -
  from assms obtain items where items:
    "getitem req ''texts'' = Inr (JList items)"
    "translate_items tr (source_language (translation_metadata r))
        (target_language (translation_metadata r)) items [] 0 [] =
       (calls, Inr (translated_texts r, total_characters (translation_metadata r)))"
    by (rule entries_of_items)
  let ?src = "source_language (translation_metadata r)"
  let ?tgt = "target_language (translation_metadata r)"
  let ?es = "translated_texts r"
  from translate_items_result [OF items(2)]
  have len: "length ?es = length items"
    and each: "\<forall>i<length items. \<exists>s.
           item_text_id (items ! i) (length ([]::entry list) + i) = (JStr s, entry_id (?es ! i)) \<and>
           original_text (?es ! i) = s \<and>
           (if py_strip s = []
            then translated_text (?es ! i) = [] \<and> character_count (?es ! i) = 0
            else tr s ?src ?tgt = Inr (translated_text (?es ! i)) \<and>
                 character_count (?es ! i) = length s)"
    and tot: "total_characters (translation_metadata r) = 0 + sum_list (map character_count ?es)"
    by auto
  have cnt: "\<forall>e\<in>set ?es. character_count e =
             (if py_strip (original_text e) = [] then 0 else length (original_text e))"
  proof
    fix e assume "e \<in> set ?es"
    then obtain i where i: "i < length ?es" "?es ! i = e" by (auto simp: in_set_conv_nth)
    with len each have "\<exists>s. original_text e = s \<and>
           (if py_strip s = [] then character_count e = 0 else character_count e = length s)"
      by (auto split: if_splits)
    then show "character_count e =
             (if py_strip (original_text e) = [] then 0 else length (original_text e))"
      by (auto split: if_splits)
  qed
  have "total_characters (translation_metadata r) =
          sum_list (map (\<lambda>e. length (original_text e))
                    (filter (\<lambda>e. py_strip (original_text e) \<noteq> []) ?es))"
    using tot sum_character_count [OF cnt] by simp
  also have "\<dots> = sum_list (map length (filter (\<lambda>s. py_strip s \<noteq> []) (map original_text ?es)))"
    by (simp add: filter_map comp_def)
  finally have total: "total_characters (translation_metadata r) =
      sum_list (map length (filter (\<lambda>s. py_strip s \<noteq> []) (map original_text ?es)))" .
  have items_ok: "\<forall>i<length items. \<exists>s.
               fst (item_text_id (items ! i) i) = JStr s \<and>
               original_text (?es ! i) = s \<and>
               (if py_strip s = []
                then translated_text (?es ! i) = []
                else tr s ?src ?tgt = Inr (translated_text (?es ! i)))"
  proof (intro allI impI)
    fix i assume "i < length items"
    with each obtain s where
      "item_text_id (items ! i) i = (JStr s, entry_id (?es ! i))"
      "original_text (?es ! i) = s"
      "if py_strip s = []
       then translated_text (?es ! i) = [] \<and> character_count (?es ! i) = 0
       else tr s ?src ?tgt = Inr (translated_text (?es ! i)) \<and>
            character_count (?es ! i) = length s"
      by auto
    then show "\<exists>s. fst (item_text_id (items ! i) i) = JStr s \<and>
               original_text (?es ! i) = s \<and>
               (if py_strip s = []
                then translated_text (?es ! i) = []
                else tr s ?src ?tgt = Inr (translated_text (?es ! i)))"
      by (intro exI [of _ s]) (auto split: if_splits)
  qed
  from items(1) len items_ok total show ?thesis by blast
qed

theorem C2_one_entry_per_item_witness:
  "validate_translation_request ex_request = Inr True \<and>
   process_translation ex_now ex_adapter ex_request = (ex_calls, Inr ex_result) \<and>
   length (translated_texts ex_result) = length ex_items \<and>
   total_characters (translation_metadata ex_result) =
     sum_list (map length (filter (\<lambda>s. py_strip s \<noteq> [])
                             (map original_text (translated_texts ex_result))))"
  using C2_one_entry_per_item [OF ex_valid ex_process] ex_valid ex_process
  by (auto simp: ex_request_def getitem_def)

text \<open>
  Claim C2 as stated fails on the request of the specification's own example: it is
  valid and has two non-blank items, yet its result has three entries, one of them with
  an empty translated text.
\<close>

theorem C2_counterexample:
  "validate_translation_request ex_request = Inr True \<and>
   getitem ex_request ''texts'' = Inr (JList ex_items) \<and>
   length (filter non_blank_item ex_items) = 2 \<and>
   process_translation ex_now ex_adapter ex_request = (ex_calls, Inr ex_result) \<and>
   length (translated_texts ex_result) = 3 \<and>
   translated_text (translated_texts ex_result ! 1) = []"
  using ex_valid ex_process
  by (simp add: ex_request_def getitem_def ex_items_def non_blank_item_def item_text_id_def
      py_str_def py_strip_def is_space_def ex_result_def)

subsection \<open>Blank items\<close>

lemma item_text_id_fst: "fst (item_text_id x n) = fst (item_text_id x 0)"
  by (auto simp: item_text_id_def split: json.splits option.splits)

lemma length_filter_pointwise:
  "length xs = length ys \<Longrightarrow> (\<forall>i<length xs. P (xs ! i) = Q (ys ! i)) \<Longrightarrow>
     length (filter P xs) = length (filter Q ys)"
proof (induction xs ys rule: list_induct2)
  case Nil
  then show ?case by simp
next
  case (Cons x xs y ys)
  from Cons.prems have "P x = Q y" by auto
  moreover from Cons.prems have "\<forall>i<length xs. P (xs ! i) = Q (ys ! i)" by auto
  ultimately show ?case using Cons.IH by simp
qed

lemma ex_direct:
  "translate_direct ex_now ex_adapter ex_texts ''en'' ''es'' = (ex_direct_calls, Inr ex_direct_result)"
  by (simp add: translate_direct_def ex_texts_def py_strip_def is_space_def ex_adapter_def
      ex_direct_calls_def ex_direct_result_def ex_isoformat)

lemma ingest_blank_items:
  assumes "process_translation now tr req = (calls, Inr r)"
      and "getitem req ''texts'' = Inr (JList items)"
  shows "length (translated_texts r) = length items \<and>
         length calls = length (filter non_blank_item items) \<and>
         (\<forall>i<length items. \<forall>s.
             fst (item_text_id (items ! i) i) = JStr s \<and> py_strip s = [] \<longrightarrow>
               original_text (translated_texts r ! i) = s \<and>
               translated_text (translated_texts r ! i) = [] \<and>
               character_count (translated_texts r ! i) = 0)"
proof -
  let ?es = "translated_texts r"
  from assms(1) obtain src tgt texts its where p:
    "getitem req ''texts'' = Inr texts" "py_iter texts = Inr its"
    "translate_items tr src tgt its [] 0 [] =
       (calls, Inr (translated_texts r, total_characters (translation_metadata r)))"
    by (rule process_translation_Inr)
  with assms(2) have "its = items" by (simp add: py_iter_def)
  with translate_items_result [OF p(3)]
  have len: "length ?es = length items"
    and each: "\<forall>i<length items. \<exists>s.
           item_text_id (items ! i) (length ([]::entry list) + i) = (JStr s, entry_id (?es ! i)) \<and>
           original_text (?es ! i) = s \<and>
           (if py_strip s = []
            then translated_text (?es ! i) = [] \<and> character_count (?es ! i) = 0
            else tr s src tgt = Inr (translated_text (?es ! i)) \<and>
                 character_count (?es ! i) = length s)"
    and calls: "calls = [] @ map (\<lambda>e. (original_text e, src, tgt))
                          (filter (\<lambda>e. py_strip (original_text e) \<noteq> []) ?es)"
    by auto
  have same: "\<forall>i<length ?es. (py_strip (original_text (?es ! i)) \<noteq> []) = non_blank_item (items ! i)"
  proof (intro allI impI)
    fix i assume "i < length ?es"
    with len each obtain s where
      "item_text_id (items ! i) i = (JStr s, entry_id (?es ! i))" "original_text (?es ! i) = s"
      by auto
    moreover have "fst (item_text_id (items ! i) i) = fst (item_text_id (items ! i) 0)"
      by (rule item_text_id_fst)
    ultimately have "fst (item_text_id (items ! i) 0) = JStr (original_text (?es ! i))"
      by simp
    then show "(py_strip (original_text (?es ! i)) \<noteq> []) = non_blank_item (items ! i)"
      by (simp add: non_blank_item_def)
  qed
  have "length calls = length (filter (\<lambda>e. py_strip (original_text e) \<noteq> []) ?es)"
    using calls by simp
  also have "\<dots> = length (filter non_blank_item items)"
    using len same by (rule length_filter_pointwise)
  finally have n: "length calls = length (filter non_blank_item items)" .
  have blank: "\<forall>i<length items. \<forall>s.
             fst (item_text_id (items ! i) i) = JStr s \<and> py_strip s = [] \<longrightarrow>
               original_text (?es ! i) = s \<and> translated_text (?es ! i) = [] \<and>
               character_count (?es ! i) = 0"
  proof (intro allI impI)
    fix i s assume i: "i < length items"
      and s: "fst (item_text_id (items ! i) i) = JStr s \<and> py_strip s = []"
    from each i obtain s' where s':
      "item_text_id (items ! i) i = (JStr s', entry_id (?es ! i))" "original_text (?es ! i) = s'"
      "if py_strip s' = []
       then translated_text (?es ! i) = [] \<and> character_count (?es ! i) = 0
       else tr s' src tgt = Inr (translated_text (?es ! i)) \<and>
            character_count (?es ! i) = length s'"
      by auto
    from s s'(1) have "s' = s" by simp
    with s s' show "original_text (?es ! i) = s \<and> translated_text (?es ! i) = [] \<and>
               character_count (?es ! i) = 0" by simp
  qed
  from len n blank show ?thesis by blast
qed

lemma direct_blank_items:
  assumes "translate_direct now tr texts src tgt = (calls, Inr r)"
  shows "length (translated_texts r) = length texts \<and>
         calls = map (\<lambda>t. (t, src, tgt)) (filter (\<lambda>t. py_strip t \<noteq> []) texts) \<and>
         (\<forall>i<length texts.
            entry_id (translated_texts r ! i) = JInt (int i) \<and>
            original_text (translated_texts r ! i) = texts ! i \<and>
            (if py_strip (texts ! i) = []
             then translated_text (translated_texts r ! i) = [] \<and>
                  character_count (translated_texts r ! i) = 0
             else tr (texts ! i) src tgt = Inr (translated_text (translated_texts r ! i)) \<and>
                  character_count (translated_texts r ! i) = length (texts ! i)))"
proof -
  from assms obtain n where
    d: "direct_items tr src tgt 0 texts [] 0 [] = (calls, Inr (translated_texts r, n))"
    unfolding translate_direct_def by (auto split: prod.splits sum.splits)
  from direct_items_result [OF d] show ?thesis by auto
qed

text \<open>
  Claim C3. In every run of the ingestion translation step and of the direct path, no
  adapter call carries a blank text. When the step returns a result, there is one adapter
  call per non-blank item, and the entry at the position of every item whose trimmed
  text is empty has the item's text as original text, the empty string as translated
  text and a character count of 0.
\<close>

theorem C3_blank_items_not_translated:
  assumes "process_translation now tr req = (calls, res)"
      and "translate_direct now' tr' texts src tgt = (calls', res')"
  shows "(\<forall>c\<in>set calls. py_strip (fst c) \<noteq> []) \<and>
         (\<forall>c\<in>set calls'. py_strip (fst c) \<noteq> []) \<and>
         (\<forall>r items. res = Inr r \<and> getitem req ''texts'' = Inr (JList items) \<longrightarrow>
            length (translated_texts r) = length items \<and>
            length calls = length (filter non_blank_item items) \<and>
            (\<forall>i<length items. \<forall>s.
               fst (item_text_id (items ! i) i) = JStr s \<and> py_strip s = [] \<longrightarrow>
                 original_text (translated_texts r ! i) = s \<and>
                 translated_text (translated_texts r ! i) = [] \<and>
                 character_count (translated_texts r ! i) = 0)) \<and>
         (\<forall>r. res' = Inr r \<longrightarrow>
            length (translated_texts r) = length texts \<and>
            length calls' = length (filter (\<lambda>t. py_strip t \<noteq> []) texts) \<and>
            (\<forall>i<length texts. py_strip (texts ! i) = [] \<longrightarrow>
               original_text (translated_texts r ! i) = texts ! i \<and>
               translated_text (translated_texts r ! i) = [] \<and>
               character_count (translated_texts r ! i) = 0))"
proof -
  have a: "\<forall>c\<in>set calls. py_strip (fst c) \<noteq> []"
    using assms(1) by (rule process_translation_calls)
  have b: "\<forall>c\<in>set calls'. py_strip (fst c) \<noteq> []"
  proof -
    obtain cs rs where d: "direct_items tr' src tgt 0 texts [] 0 [] = (cs, rs)"
      by (cases "direct_items tr' src tgt 0 texts [] 0 []")
    with assms(2) have "calls' = cs"
      unfolding translate_direct_def by (auto split: prod.splits sum.splits)
    with direct_items_calls [OF d] show ?thesis by auto
  qed
  have c: "\<forall>r items. res = Inr r \<and> getitem req ''texts'' = Inr (JList items) \<longrightarrow>
            length (translated_texts r) = length items \<and>
            length calls = length (filter non_blank_item items) \<and>
            (\<forall>i<length items. \<forall>s.
               fst (item_text_id (items ! i) i) = JStr s \<and> py_strip s = [] \<longrightarrow>
                 original_text (translated_texts r ! i) = s \<and>
                 translated_text (translated_texts r ! i) = [] \<and>
                 character_count (translated_texts r ! i) = 0)"
  proof (intro allI impI)
    fix r items assume h: "res = Inr r \<and> getitem req ''texts'' = Inr (JList items)"
    with assms(1) have p: "process_translation now tr req = (calls, Inr r)" by simp
    from h have g: "getitem req ''texts'' = Inr (JList items)" by simp
    show "length (translated_texts r) = length items \<and>
            length calls = length (filter non_blank_item items) \<and>
            (\<forall>i<length items. \<forall>s.
               fst (item_text_id (items ! i) i) = JStr s \<and> py_strip s = [] \<longrightarrow>
                 original_text (translated_texts r ! i) = s \<and>
                 translated_text (translated_texts r ! i) = [] \<and>
                 character_count (translated_texts r ! i) = 0)"
      using p g by (rule ingest_blank_items)
  qed
  have d: "\<forall>r. res' = Inr r \<longrightarrow>
            length (translated_texts r) = length texts \<and>
            length calls' = length (filter (\<lambda>t. py_strip t \<noteq> []) texts) \<and>
            (\<forall>i<length texts. py_strip (texts ! i) = [] \<longrightarrow>
               original_text (translated_texts r ! i) = texts ! i \<and>
               translated_text (translated_texts r ! i) = [] \<and>
               character_count (translated_texts r ! i) = 0)"
  proof (intro allI impI)
    fix r assume "res' = Inr r"
    with assms(2) have t: "translate_direct now' tr' texts src tgt = (calls', Inr r)" by simp
    from direct_blank_items [OF t]
    show "length (translated_texts r) = length texts \<and>
            length calls' = length (filter (\<lambda>t. py_strip t \<noteq> []) texts) \<and>
            (\<forall>i<length texts. py_strip (texts ! i) = [] \<longrightarrow>
               original_text (translated_texts r ! i) = texts ! i \<and>
               translated_text (translated_texts r ! i) = [] \<and>
               character_count (translated_texts r ! i) = 0)"
      by auto
  qed
  from a b c d show ?thesis by blast
qed

theorem C3_blank_items_not_translated_witness:
  "process_translation ex_now ex_adapter ex_request = (ex_calls, Inr ex_result) \<and>
   translate_direct ex_now ex_adapter ex_texts ''en'' ''es'' = (ex_direct_calls, Inr ex_direct_result) \<and>
   py_strip (ex_texts ! 1) = [] \<and>
   translated_text (translated_texts ex_result ! 1) = [] \<and>
   character_count (translated_texts ex_result ! 1) = 0 \<and>
   translated_text (translated_texts ex_direct_result ! 1) = [] \<and>
   character_count (translated_texts ex_direct_result ! 1) = 0 \<and>
   length ex_calls = 2 \<and> length ex_direct_calls = 2"
  using C3_blank_items_not_translated [OF ex_process ex_direct] ex_process ex_direct
  by (simp add: ex_texts_def py_strip_def is_space_def ex_result_def ex_direct_result_def
      ex_calls_def ex_direct_calls_def)

subsection \<open>Ids\<close>

lemma structured_texts_nth:
  "i < length texts \<Longrightarrow>
     structured_texts texts ! i = JDict [(''id'', JInt (int i)), (''text'', JStr (texts ! i))]"
  by (simp add: structured_texts_def nth_enumerate_eq)

lemma lacks_id_position: "lacks_id x \<Longrightarrow> snd (item_text_id x n) = JInt (int n)"
  by (auto simp: lacks_id_def item_text_id_def split: json.splits option.splits)

text \<open>
  Claim C8. The request built by the Request Encoder has under \<^verbatim>\<open>'texts'\<close> one
  \<^verbatim>\<open>{'id': i, 'text': t}\<close> per input text, with \<open>i\<close> its 0-based position. In a result
  of the ingestion translation step, the entry of every item without an \<^verbatim>\<open>'id'\<close>
  field (bare items included) has the item's 0-based position as id.
\<close>

theorem C8_ids_by_position:
  "(getitem (create_translation_request now_id now_ts texts src tgt request_id) ''texts'' =
      Inr (JList (structured_texts texts)) \<and>
    length (structured_texts texts) = length texts \<and>
    (\<forall>i<length texts.
       structured_texts texts ! i = JDict [(''id'', JInt (int i)), (''text'', JStr (texts ! i))])) \<and>
   (process_translation now tr req = (calls, Inr r) \<and>
    getitem req ''texts'' = Inr (JList items) \<longrightarrow>
      length (translated_texts r) = length items \<and>
      (\<forall>i<length items. lacks_id (items ! i) \<longrightarrow>
         entry_id (translated_texts r ! i) = JInt (int i)))"
proof (intro conjI impI)
  show "getitem (create_translation_request now_id now_ts texts src tgt request_id) ''texts'' =
      Inr (JList (structured_texts texts))"
    by (simp add: create_translation_request_def getitem_def Let_def)
  show "length (structured_texts texts) = length texts"
    by (simp add: structured_texts_def)
  show "\<forall>i<length texts.
       structured_texts texts ! i = JDict [(''id'', JInt (int i)), (''text'', JStr (texts ! i))]"
    by (simp add: structured_texts_nth)
next
  assume h: "process_translation now tr req = (calls, Inr r) \<and>
    getitem req ''texts'' = Inr (JList items)"
  let ?es = "translated_texts r"
  from h obtain src' tgt' texts' its where p:
    "getitem req ''texts'' = Inr texts'" "py_iter texts' = Inr its"
    "translate_items tr src' tgt' its [] 0 [] =
       (calls, Inr (translated_texts r, total_characters (translation_metadata r)))"
    by (blast elim: process_translation_Inr)
  with h have "its = items" by (simp add: py_iter_def)
  with translate_items_result [OF p(3)]
  have len: "length ?es = length items"
    and each: "\<forall>i<length items. \<exists>s.
           item_text_id (items ! i) (length ([]::entry list) + i) = (JStr s, entry_id (?es ! i))"
    by auto
  show "length ?es = length items" by (rule len)
  show "\<forall>i<length items. lacks_id (items ! i) \<longrightarrow> entry_id (?es ! i) = JInt (int i)"
  proof (intro allI impI)
    fix i assume i: "i < length items" and l: "lacks_id (items ! i)"
    from each i obtain s where "item_text_id (items ! i) i = (JStr s, entry_id (?es ! i))"
      by auto
    then have "entry_id (?es ! i) = snd (item_text_id (items ! i) i)" by simp
    with lacks_id_position [OF l] show "entry_id (?es ! i) = JInt (int i)" by simp
  qed
qed

lemma ex_mixed_valid: "validate_translation_request ex_mixed_request = Inr True"
  by (simp add: validate_translation_request_def ex_mixed_request_def ex_mixed_items_def
      contains_def getitem_def)

lemma ex_str_5: "py_str (JInt 5) = ''5''"
  by code_simp

lemma ex_str_None: "py_str JNull = ''None''"
  by (simp add: py_str_def)

lemma py_str_JStr: "py_str (JStr s) = s"
  by (simp add: py_str_def)

lemma ex_mixed_translate_items:
  "translate_items ex_adapter (JStr ''en'') (JStr ''es'') ex_mixed_items [] 0 [] =
     (ex_mixed_calls, Inr (translated_texts ex_mixed_result, 13))"
  by (simp add: ex_mixed_items_def item_text_id_def py_strip_def is_space_def ex_adapter_def
      ex_mixed_calls_def ex_mixed_result_def ex_str_5 ex_str_None py_str_JStr)

lemma ex_mixed_items_length: "length ex_mixed_items = 5"
  by (simp add: ex_mixed_items_def)

lemma ex_mixed_process:
  "process_translation ex_now ex_adapter ex_mixed_request = (ex_mixed_calls, Inr ex_mixed_result)"
  by (simp add: process_translation_def ex_mixed_request_def getitem_def py_iter_def
      ex_mixed_translate_items ex_isoformat ex_mixed_result_def ex_mixed_items_length)

theorem C8_ids_by_position_witness:
  "process_translation ex_now ex_adapter ex_mixed_request = (ex_mixed_calls, Inr ex_mixed_result) \<and>
   getitem ex_mixed_request ''texts'' = Inr (JList ex_mixed_items) \<and>
   lacks_id (ex_mixed_items ! 2) \<and>
   entry_id (translated_texts ex_mixed_result ! 2) = JInt 2 \<and>
   structured_texts ex_texts ! 2 = JDict [(''id'', JInt 2), (''text'', JStr ''World'')]"
proof -
  have g: "getitem ex_mixed_request ''texts'' = Inr (JList ex_mixed_items)"
    by (simp add: ex_mixed_request_def getitem_def)
  have l: "lacks_id (ex_mixed_items ! 2)"
    by (simp add: ex_mixed_items_def lacks_id_def)
  have n: "(2::nat) < length ex_mixed_items" "(2::nat) < length ex_texts"
    by (simp_all add: ex_mixed_items_def ex_texts_def)
  from C8_ids_by_position [of ex_now ex_now ex_texts "''en''" "''es''" None ex_now ex_adapter
      ex_mixed_request ex_mixed_calls ex_mixed_result ex_mixed_items]
    ex_mixed_process g l n
  show ?thesis by (auto simp: ex_texts_def)
qed

subsection \<open>Items of any shape\<close>

lemma digit_not_space: "d < 10 \<Longrightarrow> \<not> is_space (char_of (48 + d :: nat))"
  by (simp add: is_space_def Let_def of_char_of)

lemma digits_not_blank: "py_strip (digits n) \<noteq> []"
proof -
  have "char_of (48 + n mod 10) \<in> set (digits n)"
    by (subst digits.simps) (auto simp: mod_less)
  moreover have "\<not> is_space (char_of (48 + n mod 10))"
    by (rule digit_not_space) simp
  ultimately show ?thesis by (auto simp: py_strip_empty_iff)
qed

lemma not_blank_with: "c \<in> set s \<Longrightarrow> \<not> is_space c \<Longrightarrow> py_strip s \<noteq> []"
  by (auto simp: py_strip_empty_iff)

lemma free_form_not_blank: "free_form_item x \<Longrightarrow> py_strip (py_str x) \<noteq> []"
proof (cases x)
  case JNull
  have "CHR ''N'' \<in> set ''None''" "\<not> is_space CHR ''N''" by (simp_all add: is_space_def)
  then have "py_strip ''None'' \<noteq> []" by (rule not_blank_with)
  with JNull show ?thesis by (simp add: py_str_def)
next
  case (JBool b)
  have "CHR ''T'' \<in> set ''True''" "\<not> is_space CHR ''T''" by (simp_all add: is_space_def)
  then have t: "py_strip ''True'' \<noteq> []" by (rule not_blank_with)
  have "CHR ''F'' \<in> set ''False''" "\<not> is_space CHR ''F''" by (simp_all add: is_space_def)
  then have f: "py_strip ''False'' \<noteq> []" by (rule not_blank_with)
  from JBool t f show ?thesis by (simp add: py_str_def)
next
  case (JInt i)
  show ?thesis
  proof (cases "i < 0")
    case True
    have "CHR ''-'' \<in> set (CHR ''-'' # digits (nat (- i)))" "\<not> is_space CHR ''-''"
      by (simp_all add: is_space_def)
    then have "py_strip (CHR ''-'' # digits (nat (- i))) \<noteq> []" by (rule not_blank_with)
    with JInt True show ?thesis by (simp add: py_str_def str_int_def)
  next
    case False
    with JInt show ?thesis by (simp add: py_str_def str_int_def digits_not_blank)
  qed
next
  case (JStr s)
  assume "free_form_item x"
  with JStr show ?thesis by (simp add: free_form_item_def)
next
  case (JList xs)
  have "CHR ''['' \<in> set (py_repr (JList xs))" "\<not> is_space CHR ''[''"
    by (simp_all add: is_space_def)
  then have "py_strip (py_repr (JList xs)) \<noteq> []" by (rule not_blank_with)
  with JList show ?thesis by (simp add: py_str_def)
next
  case (JDict kvs)
  have "CHR ''{'' \<in> set (py_repr (JDict kvs))" "\<not> is_space CHR ''{''"
    by (simp_all add: is_space_def)
  then have "py_strip (py_repr (JDict kvs)) \<noteq> []" by (rule not_blank_with)
  with JDict show ?thesis by (simp add: py_str_def)
qed

lemma free_form_text_id:
  "free_form_item x \<Longrightarrow> item_text_id x n = (JStr (py_str x), JInt (int n))"
  by (auto simp: free_form_item_def item_text_id_def split: json.splits option.splits)

lemma validate_accepts:
  assumes "map_of kvs ''source_language'' \<noteq> None" "map_of kvs ''target_language'' \<noteq> None"
    "map_of kvs ''texts'' = Some (JList (x # xs))"
  shows "validate_translation_request (JDict kvs) = Inr True"
proof -
  from assms have "''source_language'' \<in> fst ` set kvs" "''target_language'' \<in> fst ` set kvs"
    "''texts'' \<in> fst ` set kvs"
    by (force dest: map_of_SomeD)+
  then have "check_required (JDict kvs) [''source_language'', ''target_language'', ''texts''] = Inr True"
    by (simp add: contains_def)
  with assms(3) show ?thesis
    by (simp add: validate_translation_request_def getitem_def)
qed

text \<open>
  Claim C10. Validation accepts every request that has the two language fields and a
  non-empty list under \<^verbatim>\<open>'texts'\<close>, whatever the items are. An item that is neither a
  string nor a dict with a \<^verbatim>\<open>'text'\<close> key is replaced by its string representation,
  which is never blank, so the item is not skipped: in a result of the translation step
  its entry carries that string as original text, the adapter's answer for that string
  as translated text and the string's length as character count, the adapter call is in
  the log, and \<^verbatim>\<open>'total_characters'\<close> is the sum of all character counts.
\<close>

theorem C10_free_form_items_translated:
  "(map_of kvs ''source_language'' \<noteq> None \<and> map_of kvs ''target_language'' \<noteq> None \<and>
    map_of kvs ''texts'' = Some (JList (x # xs)) \<longrightarrow>
      validate_translation_request (JDict kvs) = Inr True) \<and>
   (free_form_item text_item \<longrightarrow>
      item_text_id text_item n = (JStr (py_str text_item), JInt (int n)) \<and>
      py_strip (py_str text_item) \<noteq> []) \<and>
   (process_translation now tr req = (calls, Inr r) \<and>
    getitem req ''texts'' = Inr (JList items) \<longrightarrow>
      total_characters (translation_metadata r) =
        sum_list (map character_count (translated_texts r)) \<and>
      (\<forall>i<length items. free_form_item (items ! i) \<longrightarrow>
         original_text (translated_texts r ! i) = py_str (items ! i) \<and>
         tr (py_str (items ! i)) (source_language (translation_metadata r))
            (target_language (translation_metadata r)) =
           Inr (translated_text (translated_texts r ! i)) \<and>
         character_count (translated_texts r ! i) = length (py_str (items ! i)) \<and>
         (py_str (items ! i), source_language (translation_metadata r),
            target_language (translation_metadata r)) \<in> set calls))"
proof (intro conjI impI)
  assume "map_of kvs ''source_language'' \<noteq> None \<and> map_of kvs ''target_language'' \<noteq> None \<and>
    map_of kvs ''texts'' = Some (JList (x # xs))"
  then show "validate_translation_request (JDict kvs) = Inr True"
    by (auto intro: validate_accepts)
next
  assume f: "free_form_item text_item"
  then show "item_text_id text_item n = (JStr (py_str text_item), JInt (int n))"
    by (rule free_form_text_id)
  from f show "py_strip (py_str text_item) \<noteq> []" by (rule free_form_not_blank)
next
  assume h: "process_translation now tr req = (calls, Inr r) \<and>
    getitem req ''texts'' = Inr (JList items)"
  let ?es = "translated_texts r"
  let ?src = "source_language (translation_metadata r)"
  let ?tgt = "target_language (translation_metadata r)"
  from h obtain src tgt texts' its where p:
    "getitem req ''texts'' = Inr texts'" "py_iter texts' = Inr its"
    "translate_items tr src tgt its [] 0 [] =
       (calls, Inr (translated_texts r, total_characters (translation_metadata r)))"
    "?src = src" "?tgt = tgt"
    by (blast elim: process_translation_Inr)
  with h have "its = items" by (simp add: py_iter_def)
  with translate_items_result [OF p(3)]
  have len: "length ?es = length items"
    and each: "\<forall>i<length items. \<exists>s.
           item_text_id (items ! i) (length ([]::entry list) + i) = (JStr s, entry_id (?es ! i)) \<and>
           original_text (?es ! i) = s \<and>
           (if py_strip s = []
            then translated_text (?es ! i) = [] \<and> character_count (?es ! i) = 0
            else tr s src tgt = Inr (translated_text (?es ! i)) \<and>
                 character_count (?es ! i) = length s)"
    and tot: "total_characters (translation_metadata r) = 0 + sum_list (map character_count ?es)"
    and calls: "calls = [] @ map (\<lambda>e. (original_text e, src, tgt))
                          (filter (\<lambda>e. py_strip (original_text e) \<noteq> []) ?es)"
    by auto
  from tot show "total_characters (translation_metadata r) = sum_list (map character_count ?es)"
    by simp
  show "\<forall>i<length items. free_form_item (items ! i) \<longrightarrow>
         original_text (?es ! i) = py_str (items ! i) \<and>
         tr (py_str (items ! i)) ?src ?tgt = Inr (translated_text (?es ! i)) \<and>
         character_count (?es ! i) = length (py_str (items ! i)) \<and>
         (py_str (items ! i), ?src, ?tgt) \<in> set calls"
  proof (intro allI impI)
    fix i assume i: "i < length items" and f: "free_form_item (items ! i)"
    from each i obtain s where s:
      "item_text_id (items ! i) i = (JStr s, entry_id (?es ! i))"
      "original_text (?es ! i) = s"
      "if py_strip s = []
       then translated_text (?es ! i) = [] \<and> character_count (?es ! i) = 0
       else tr s src tgt = Inr (translated_text (?es ! i)) \<and>
            character_count (?es ! i) = length s"
      by auto
    from free_form_text_id [OF f, of i] s(1) have eq: "s = py_str (items ! i)" by simp
    from free_form_not_blank [OF f] eq have nb: "py_strip s \<noteq> []" by simp
    from i len have "?es ! i \<in> set ?es" by simp
    with nb s(2) have "(s, src, tgt) \<in> set calls"
      unfolding calls by force
    with s nb eq p(4,5)
    show "original_text (?es ! i) = py_str (items ! i) \<and>
         tr (py_str (items ! i)) ?src ?tgt = Inr (translated_text (?es ! i)) \<and>
         character_count (?es ! i) = length (py_str (items ! i)) \<and>
         (py_str (items ! i), ?src, ?tgt) \<in> set calls"
      by simp
  qed
qed

theorem C10_free_form_items_translated_witness:
  "validate_translation_request ex_mixed_request = Inr True \<and>
   free_form_item (ex_mixed_items ! 2) \<and> free_form_item (ex_mixed_items ! 4) \<and>
   process_translation ex_now ex_adapter ex_mixed_request = (ex_mixed_calls, Inr ex_mixed_result) \<and>
   original_text (translated_texts ex_mixed_result ! 2) = ''5'' \<and>
   character_count (translated_texts ex_mixed_result ! 2) = 1 \<and>
   original_text (translated_texts ex_mixed_result ! 4) = ''None'' \<and>
   (''None'', JStr ''en'', JStr ''es'') \<in> set ex_mixed_calls \<and>
   total_characters (translation_metadata ex_mixed_result) = 13"
proof -
  have g: "getitem ex_mixed_request ''texts'' = Inr (JList ex_mixed_items)"
    by (simp add: ex_mixed_request_def getitem_def)
  have f: "free_form_item (ex_mixed_items ! 2)" "free_form_item (ex_mixed_items ! 4)"
    by (simp_all add: ex_mixed_items_def free_form_item_def)
  have n: "(2::nat) < length ex_mixed_items" "(4::nat) < length ex_mixed_items"
    by (simp_all add: ex_mixed_items_def)
  have m: "map_of [(''source_language'', JStr ''en''), (''target_language'', JStr ''es''),
            (''texts'', JList ex_mixed_items)] ''texts'' =
           Some (JList (JStr ''Hi'' # tl ex_mixed_items))"
    by (simp add: ex_mixed_items_def)
  from C10_free_form_items_translated [of
      "[(''source_language'', JStr ''en''), (''target_language'', JStr ''es''),
        (''texts'', JList ex_mixed_items)]" "JStr ''Hi''" "tl ex_mixed_items"
      "ex_mixed_items ! 2" 2 ex_now ex_adapter ex_mixed_request ex_mixed_calls ex_mixed_result
      ex_mixed_items]
    ex_mixed_process g f n m
  show ?thesis
    by (auto simp: ex_mixed_request_def ex_mixed_result_def ex_mixed_calls_def ex_mixed_items_def
        ex_str_5 ex_str_None)
qed

subsection \<open>The direct path\<close>

lemma first_failure_split:
  assumes "\<exists>u\<in>set texts. py_strip u \<noteq> [] \<and> (\<exists>e. tr u src tgt = Inl e)"
  obtains pre t post e where "texts = pre @ t # post" "py_strip t \<noteq> []" "tr t src tgt = Inl e"
    "\<forall>u\<in>set pre. py_strip u \<noteq> [] \<longrightarrow> (\<exists>x. tr u src tgt = Inr x)"
proof -
  let ?P = "\<lambda>u. py_strip u \<noteq> [] \<and> (\<exists>e. tr u src tgt = Inl e)"
  from assms have "\<exists>u\<in>set texts. ?P u" .
  then obtain pre t post where s: "texts = pre @ t # post" "?P t" "\<forall>u\<in>set pre. \<not> ?P u"
    by (auto simp: split_list_first_prop_iff)
  from s(2) obtain e where e: "tr t src tgt = Inl e" by blast
  have "\<forall>u\<in>set pre. py_strip u \<noteq> [] \<longrightarrow> (\<exists>x. tr u src tgt = Inr x)"
  proof (intro ballI impI)
    fix u assume "u \<in> set pre" "py_strip u \<noteq> []"
    with s(3) have "\<not> (\<exists>e. tr u src tgt = Inl e)" by blast
    then show "\<exists>x. tr u src tgt = Inr x" by (cases "tr u src tgt") auto
  qed
  with s(1,2) e show ?thesis using that by blast
qed

text \<open>
  Claim C9. In \<^verbatim>\<open>translate_direct\<close>, when the adapter fails on a non-blank text and
  has answered every non-blank text before it, the call ends with that exception: no
  result is returned and the adapter calls made are those for the texts up to the
  failing one, none after it. Hence whenever the adapter fails on some non-blank text
  the call raises. When the adapter answers every non-blank text, a result is returned
  and its metadata carries the method tag \<^verbatim>\<open>direct\<close>.
\<close>

theorem C9_direct_failure_propagates:
  "(texts = pre @ t # post \<and> py_strip t \<noteq> [] \<and> tr t src tgt = Inl e \<and>
    (\<forall>u\<in>set pre. py_strip u \<noteq> [] \<longrightarrow> (\<exists>x. tr u src tgt = Inr x)) \<longrightarrow>
      translate_direct now tr texts src tgt =
        (map (\<lambda>u. (u, src, tgt)) (filter (\<lambda>u. py_strip u \<noteq> []) pre) @ [(t, src, tgt)], Inl e)) \<and>
   ((\<exists>u\<in>set texts. py_strip u \<noteq> [] \<and> (\<exists>e. tr u src tgt = Inl e)) \<longrightarrow>
      (\<exists>e. snd (translate_direct now tr texts src tgt) = Inl e)) \<and>
   ((\<forall>u\<in>set texts. py_strip u \<noteq> [] \<longrightarrow> (\<exists>x. tr u src tgt = Inr x)) \<longrightarrow>
      (\<exists>r. snd (translate_direct now tr texts src tgt) = Inr r \<and>
           method_tag (translation_metadata r) = Some ''direct'' \<and>
           length (translated_texts r) = length texts))"
proof (intro conjI impI)
  assume h: "texts = pre @ t # post \<and> py_strip t \<noteq> [] \<and> tr t src tgt = Inl e \<and>
    (\<forall>u\<in>set pre. py_strip u \<noteq> [] \<longrightarrow> (\<exists>x. tr u src tgt = Inr x))"
  then have "direct_items tr src tgt 0 (pre @ t # post) [] 0 [] =
       ([] @ map (\<lambda>u. (u, src, tgt)) (filter (\<lambda>u. py_strip u \<noteq> []) pre) @ [(t, src, tgt)], Inl e)"
    by (intro direct_items_first_failure) auto
  with h show "translate_direct now tr texts src tgt =
        (map (\<lambda>u. (u, src, tgt)) (filter (\<lambda>u. py_strip u \<noteq> []) pre) @ [(t, src, tgt)], Inl e)"
    by (simp add: translate_direct_def)
next
  assume "\<exists>u\<in>set texts. py_strip u \<noteq> [] \<and> (\<exists>e. tr u src tgt = Inl e)"
  then obtain pre' t' post' e' where s: "texts = pre' @ t' # post'" "py_strip t' \<noteq> []"
    "tr t' src tgt = Inl e'"
    "\<forall>u\<in>set pre'. py_strip u \<noteq> [] \<longrightarrow> (\<exists>x. tr u src tgt = Inr x)"
    by (rule first_failure_split)
  have "direct_items tr src tgt 0 (pre' @ t' # post') [] 0 [] =
       ([] @ map (\<lambda>u. (u, src, tgt)) (filter (\<lambda>u. py_strip u \<noteq> []) pre') @ [(t', src, tgt)],
        Inl e')"
    using s(2,3,4) by (rule direct_items_first_failure)
  with s(1) show "\<exists>e. snd (translate_direct now tr texts src tgt) = Inl e"
    by (simp add: translate_direct_def)
next
  assume "\<forall>u\<in>set texts. py_strip u \<noteq> [] \<longrightarrow> (\<exists>x. tr u src tgt = Inr x)"
  then have "\<exists>acc' n'. direct_items tr src tgt 0 texts [] 0 [] =
        ([] @ map (\<lambda>t. (t, src, tgt)) (filter (\<lambda>t. py_strip t \<noteq> []) texts), Inr (acc', n'))"
    by (rule direct_items_all_ok)
  then obtain acc' n' where
    d: "direct_items tr src tgt 0 texts [] 0 [] =
        ([] @ map (\<lambda>t. (t, src, tgt)) (filter (\<lambda>t. py_strip t \<noteq> []) texts), Inr (acc', n'))"
    by blast
  from direct_items_result [OF d] have "length acc' = length texts" by auto
  with d show "\<exists>r. snd (translate_direct now tr texts src tgt) = Inr r \<and>
           method_tag (translation_metadata r) = Some ''direct'' \<and>
           length (translated_texts r) = length texts"
    by (simp add: translate_direct_def)
qed

theorem C9_direct_failure_propagates_witness:
  "translate_direct ex_now ex_failing_adapter [''Hello'', ''boom'', ''World''] ''en'' ''es'' =
     ([(''Hello'', ''en'', ''es''), (''boom'', ''en'', ''es'')], Inl (ClientError ''unavailable'')) \<and>
   snd (translate_direct ex_now ex_adapter ex_texts ''en'' ''es'') = Inr ex_direct_result \<and>
   method_tag (translation_metadata ex_direct_result) = Some ''direct''"
proof -
  have h1: "[''Hello'', ''boom'', ''World''] = [''Hello''] @ ''boom'' # [''World''] \<and>
      py_strip ''boom'' \<noteq> [] \<and>
      ex_failing_adapter ''boom'' ''en'' ''es'' = Inl (ClientError ''unavailable'') \<and>
      (\<forall>u\<in>set [''Hello'']. py_strip u \<noteq> [] \<longrightarrow> (\<exists>x. ex_failing_adapter u ''en'' ''es'' = Inr x))"
    by (simp add: py_strip_def is_space_def ex_failing_adapter_def)
  have h3: "\<forall>u\<in>set ex_texts. py_strip u \<noteq> [] \<longrightarrow> (\<exists>x. ex_adapter u ''en'' ''es'' = Inr x)"
    by (simp add: ex_adapter_def)
  have nb: "py_strip ''Hello'' \<noteq> []"
    by (simp add: py_strip_def is_space_def)
  have a0: "translate_direct ex_now ex_failing_adapter [''Hello'', ''boom'', ''World''] ''en'' ''es'' =
     (map (\<lambda>u. (u, ''en'', ''es'')) (filter (\<lambda>u. py_strip u \<noteq> []) [''Hello''])
        @ [(''boom'', ''en'', ''es'')], Inl (ClientError ''unavailable''))"
    using C9_direct_failure_propagates [where texts = "[''Hello'', ''boom'', ''World'']"
      and pre = "[''Hello'']" and t = "''boom''" and post = "[''World'']"
      and tr = ex_failing_adapter and src = "''en''" and tgt = "''es''"
      and e = "ClientError ''unavailable''" and now = ex_now, THEN conjunct1, THEN mp, OF h1] .
  have a: "translate_direct ex_now ex_failing_adapter [''Hello'', ''boom'', ''World''] ''en'' ''es'' =
     ([(''Hello'', ''en'', ''es''), (''boom'', ''en'', ''es'')], Inl (ClientError ''unavailable''))"
    unfolding a0 by (simp add: nb)
  have "\<exists>r. snd (translate_direct ex_now ex_adapter ex_texts ''en'' ''es'') = Inr r \<and>
           method_tag (translation_metadata r) = Some ''direct'' \<and>
           length (translated_texts r) = length ex_texts"
    using C9_direct_failure_propagates [where texts = ex_texts and tr = ex_adapter
      and src = "''en''" and tgt = "''es''" and now = ex_now, THEN conjunct2, THEN conjunct2,
      THEN mp, OF h3] .
  then obtain r where r: "snd (translate_direct ex_now ex_adapter ex_texts ''en'' ''es'') = Inr r"
    "method_tag (translation_metadata r) = Some ''direct''" by blast
  from r(1) have "r = ex_direct_result" unfolding ex_direct by simp
  with r have b: "snd (translate_direct ex_now ex_adapter ex_texts ''en'' ''es'') = Inr ex_direct_result \<and>
     method_tag (translation_metadata ex_direct_result) = Some ''direct''"
    by simp
  from a b show ?thesis by simp
qed

subsection \<open>The ingestion handler\<close>

lemma validate_rejects:
  assumes "map_of kvs ''source_language'' = None \<or> map_of kvs ''target_language'' = None \<or>
           map_of kvs ''texts'' = None \<or> map_of kvs ''texts'' = Some (JList [])"
  shows "validate_translation_request (JDict kvs) = Inr False"
proof -
  have in_iff: "\<And>k. (k \<in> fst ` set kvs) = (map_of kvs k \<noteq> None)"
    by (simp add: map_of_eq_None_iff)
  from assms show ?thesis
    by (auto simp: validate_translation_request_def contains_def getitem_def in_iff
        split: option.splits json.splits)
qed

lemma process_object_skips:
  assumes "read_request env bucket key = Inr request"
      and "validate_translation_request request = Inr False"
  shows "process_object env response_bucket bucket key st = st"
  using assms by (simp add: process_object_def)

lemma process_records_status:
  "process_records env response_bucket recs st = (st1, res) \<Longrightarrow>
     (res = None) = list_all readable_record recs"
proof (induction recs arbitrary: st)
  case Nil
  then show ?case by simp
next
  case (Cons r rest)
  show ?case
  proof (cases "readable_record r")
    case True
    then obtain bucket k where
      "getpath r [''s3'', ''bucket'', ''name''] = Inr bucket"
      "getpath r [''s3'', ''object'', ''key''] = Inr (JStr k)"
      unfolding readable_record_def by (auto split: sum.splits json.splits)
    with Cons.prems have
      "process_records env response_bucket rest
         (process_object env response_bucket bucket (unquote_plus env k) st) = (st1, res)"
      by simp
    from Cons.IH [OF this] True show ?thesis by simp
  next
    case False
    with Cons.prems have "res \<noteq> None"
      unfolding readable_record_def
      by (auto simp del: getpath.simps split: sum.splits json.splits)
    with False show ?thesis by simp
  qed
qed

text \<open>
  Claim C5, as amended. The handler returns 200 exactly when both bucket variables are
  set, the \<^verbatim>\<open>'Records'\<close> of the event can be iterated and a bucket name and a string
  key can be read from every record, whatever happens to the objects inside the inner
  \<^verbatim>\<open>try\<close> (read errors, validation failures, adapter or upload errors); the body then
  counts all records. In every other case it returns 500.
\<close>

theorem C5_status_of_invocation:
  "statusCode (snd (lambda_handler env event st)) = (if completes env event then 200 else 500) \<and>
   (\<forall>records recs. completes env event \<and> getitem event ''Records'' = Inr records \<and>
        py_iter records = Inr recs \<longrightarrow>
      body (snd (lambda_handler env event st)) = Completed (length recs))"
proof (cases "environ env ''REQUEST_BUCKET'' \<noteq> None \<and> environ env ''RESPONSE_BUCKET'' \<noteq> None \<and>
    (\<exists>records recs. getitem event ''Records'' = Inr records \<and> py_iter records = Inr recs)")
  case True
  then obtain rq rs records recs where h:
    "environ env ''REQUEST_BUCKET'' = Some rq" "environ env ''RESPONSE_BUCKET'' = Some rs"
    "getitem event ''Records'' = Inr records" "py_iter records = Inr recs" by auto
  obtain st1 res where pr: "process_records env rs recs st = (st1, res)"
    by (cases "process_records env rs recs st")
  from process_records_status [OF pr] have "(res = None) = list_all readable_record recs" .
  with h pr show ?thesis
    by (cases res) (auto simp: lambda_handler_def completes_def)
next
  case False
  then show ?thesis
    by (auto simp: lambda_handler_def completes_def split: option.splits sum.splits)
qed

lemma ex_output_key:
  "generate_output_key ''20250102_030405'' ''a.json'' = ''a_translated_20250102_030405.json''"
  by (simp add: generate_output_key_def splitext_def skip_dots.simps)

lemma ex_process_object:
  "process_object ex_env ''responses'' (JStr ''requests'') ''a.json'' st =
     (let st1 = st\<lparr>adapter_calls := adapter_calls st @ ex_calls, clock_reads := clock_reads st + 3\<rparr>
      in st1\<lparr>puts := puts st @
           [\<lparr>put_bucket = ''responses'', put_key = ''a_translated_20250102_030405.json'',
             put_body = ex_result, processing_timestamp = ''2025-01-02T03:04:05''\<rparr>]\<rparr>)"
  by (simp add: process_object_def ex_env_def ex_valid ex_process ex_strftime ex_isoformat
      ex_output_key upload_result_to_s3_def Let_def)

lemma ex_record_paths:
  "getpath (ex_record k) [''s3'', ''bucket'', ''name''] = Inr (JStr ''requests'')"
  "getpath (ex_record k) [''s3'', ''object'', ''key''] = Inr (JStr k)"
  by (simp_all add: ex_record_def getitem_def)

lemma ex_bad_invalid: "validate_translation_request (JDict ex_incomplete_fields) = Inr False"
  by (rule validate_rejects) (simp add: ex_incomplete_fields_def)

lemma ex_process_bad:
  "process_object ex_env ''responses'' (JStr ''requests'') ''bad.json'' st = st"
  by (rule process_object_skips [OF _ ex_bad_invalid]) (simp add: ex_env_def)

lemma ex_process_missing:
  "process_object ex_env ''responses'' (JStr ''requests'') ''missing.json'' st = st"
  by (simp add: process_object_def ex_env_def)

lemma ex_unquote: "unquote_plus ex_env k = k"
  by (simp add: ex_env_def)

lemma ex_environ:
  "environ ex_env ''REQUEST_BUCKET'' = Some ''requests''"
  "environ ex_env ''RESPONSE_BUCKET'' = Some ''responses''"
  by (simp_all add: ex_env_def)

lemma ex_handler_broken:
  "lambda_handler ex_env ex_broken_event ex_state =
     (ex_state_done, \<lparr>statusCode = 500, headers = None, body = Failed (KeyError ''s3'')\<rparr>)"
  by (simp add: lambda_handler_def ex_environ ex_broken_event_def getitem_def py_iter_def
      ex_record_paths ex_unquote ex_process_object ex_state_def ex_state_done_def Let_def
      del: getpath.simps)
     (simp add: getitem_def)

text \<open>
  Claim C5 as stated fails: with both buckets configured, an event whose second record
  has no \<^verbatim>\<open>'s3'\<close> field gets status 500 after the first object was processed and its
  result written, so the failure arises after iteration began.
\<close>

theorem C5_counterexample:
  "environ ex_env ''REQUEST_BUCKET'' = Some ''requests'' \<and>
   environ ex_env ''RESPONSE_BUCKET'' = Some ''responses'' \<and>
   lambda_handler ex_env ex_broken_event ex_state =
     (ex_state_done, \<lparr>statusCode = 500, headers = None, body = Failed (KeyError ''s3'')\<rparr>) \<and>
   map put_key (puts ex_state_done) = [''a_translated_20250102_030405.json'']"
  using ex_environ ex_handler_broken by (simp add: ex_state_done_def)

lemma ex_completes: "completes ex_env ex_event"
  by (simp add: completes_def ex_environ ex_event_def getitem_def py_iter_def readable_record_def
      ex_record_paths del: getpath.simps)

theorem C5_status_of_invocation_witness:
  "completes ex_env ex_event \<and>
   statusCode (snd (lambda_handler ex_env ex_event ex_state)) = 200 \<and>
   body (snd (lambda_handler ex_env ex_event ex_state)) = Completed 3 \<and>
   \<not> completes ex_env ex_broken_event \<and>
   statusCode (snd (lambda_handler ex_env ex_broken_event ex_state)) = 500"
proof -
  have g: "getitem ex_event ''Records'' =
      Inr (JList [ex_record ''bad.json'', ex_record ''a.json'', ex_record ''missing.json''])"
    "py_iter (JList [ex_record ''bad.json'', ex_record ''a.json'', ex_record ''missing.json'']) =
      Inr [ex_record ''bad.json'', ex_record ''a.json'', ex_record ''missing.json'']"
    by (simp_all add: ex_event_def getitem_def py_iter_def)
  have nc: "\<not> completes ex_env ex_broken_event"
    by (simp add: completes_def ex_environ ex_broken_event_def getitem_def py_iter_def
        readable_record_def ex_record_paths)
  from C5_status_of_invocation [of ex_env ex_event ex_state]
    C5_status_of_invocation [of ex_env ex_broken_event ex_state] ex_completes g nc
  show ?thesis by auto
qed

text \<open>
  Claim C4. When the decoded body of an object is a JSON object that lacks
  \<^verbatim>\<open>'source_language'\<close>, \<^verbatim>\<open>'target_language'\<close> or \<^verbatim>\<open>'texts'\<close>, or whose
  \<^verbatim>\<open>'texts'\<close> is the empty list, validation returns \<^verbatim>\<open>False\<close>, processing the object
  leaves the state as it was (no write to the response store, no adapter call), no
  exception leaves the loop body, and the loop goes on with the remaining records
  exactly as if the object had not been in the batch; the status of the invocation is
  that of the remaining batch.
\<close>

theorem C4_invalid_request_skipped:
  assumes "read_request env bucket key = Inr (JDict kvs)"
      and "map_of kvs ''source_language'' = None \<or> map_of kvs ''target_language'' = None \<or>
           map_of kvs ''texts'' = None \<or> map_of kvs ''texts'' = Some (JList [])"
      and "getpath r [''s3'', ''bucket'', ''name''] = Inr bucket"
      and "getpath r [''s3'', ''object'', ''key''] = Inr (JStr k)"
      and "unquote_plus env k = key"
  shows "validate_translation_request (JDict kvs) = Inr False \<and>
         process_object env response_bucket bucket key st = st \<and>
         process_records env response_bucket (r # rest) st =
           process_records env response_bucket rest st \<and>
         fst (lambda_handler env (JDict [(''Records'', JList (r # rest))]) st) =
           fst (lambda_handler env (JDict [(''Records'', JList rest)]) st) \<and>
         statusCode (snd (lambda_handler env (JDict [(''Records'', JList (r # rest))]) st)) =
           statusCode (snd (lambda_handler env (JDict [(''Records'', JList rest)]) st))"
proof -
  have v: "validate_translation_request (JDict kvs) = Inr False"
    using assms(2) by (rule validate_rejects)
  have p: "process_object env response_bucket bucket key st = st" for response_bucket st
    using assms(1) v by (rule process_object_skips)
  have r: "process_records env response_bucket (r # rest) st =
           process_records env response_bucket rest st" for response_bucket st
    using assms(3,4,5) p by (simp del: getpath.simps)
  have h: "fst (lambda_handler env (JDict [(''Records'', JList (r # rest))]) st) =
           fst (lambda_handler env (JDict [(''Records'', JList rest)]) st) \<and>
         statusCode (snd (lambda_handler env (JDict [(''Records'', JList (r # rest))]) st)) =
           statusCode (snd (lambda_handler env (JDict [(''Records'', JList rest)]) st))"
    unfolding lambda_handler_def
    by (simp add: getitem_def py_iter_def r del: process_records.simps
        split: option.splits prod.splits)
  from v p r h show ?thesis by blast
qed

theorem C4_invalid_request_skipped_witness:
  "read_request ex_env (JStr ''requests'') ''bad.json'' = Inr (JDict ex_incomplete_fields) \<and>
   map_of ex_incomplete_fields ''target_language'' = None \<and>
   validate_translation_request (JDict ex_incomplete_fields) = Inr False \<and>
   process_object ex_env ''responses'' (JStr ''requests'') ''bad.json'' ex_state = ex_state \<and>
   process_records ex_env ''responses'' [ex_record ''bad.json'', ex_record ''a.json''] ex_state =
     process_records ex_env ''responses'' [ex_record ''a.json''] ex_state \<and>
   process_records ex_env ''responses'' [ex_record ''a.json''] ex_state = (ex_state_done, None)"
proof -
  have a: "read_request ex_env (JStr ''requests'') ''bad.json'' = Inr (JDict ex_incomplete_fields)"
    by (simp add: ex_env_def)
  have b: "map_of ex_incomplete_fields ''source_language'' = None \<or>
           map_of ex_incomplete_fields ''target_language'' = None \<or>
           map_of ex_incomplete_fields ''texts'' = None \<or>
           map_of ex_incomplete_fields ''texts'' = Some (JList [])"
    by (simp add: ex_incomplete_fields_def)
  have c: "map_of ex_incomplete_fields ''target_language'' = None"
    by (simp add: ex_incomplete_fields_def)
  have d: "process_records ex_env ''responses'' [ex_record ''a.json''] ex_state = (ex_state_done, None)"
    by (simp add: ex_record_paths ex_unquote ex_process_object ex_state_def ex_state_done_def
        Let_def del: getpath.simps)
  from C4_invalid_request_skipped [OF a b ex_record_paths(1) ex_record_paths(2) ex_unquote,
      of "''responses''" ex_state "[ex_record ''a.json'']"] a c d
  show ?thesis by simp
qed

subsection \<open>The retrieval handler\<close>

lemma retrieval_response_of_lookup:
  assumes "getpath event [''pathParameters'', ''request_id''] = Inr request_id"
  shows "retrieval_lambda_handler get_body response_bucket event =
     Inr (case get_body response_bucket request_id of
            Inr file_content \<Rightarrow>
              \<lparr>statusCode = 200, headers = Some cors_headers, body = file_content\<rparr>
          | Inl NoSuchKey \<Rightarrow>
              \<lparr>statusCode = 404, headers = Some cors_headers,
               body = dumps_message ''Translation not found or still processing.''\<rparr>
          | Inl _ \<Rightarrow>
              \<lparr>statusCode = 500, headers = Some cors_headers,
               body = dumps_message ''An internal server error occurred.''\<rparr>)"
  using assms unfolding retrieval_lambda_handler_def
  by (simp split: sum.splits exn.splits)

lemma retrieval_missing_request_id:
  assumes "getpath event [''pathParameters'', ''request_id''] = Inl (KeyError k)"
  shows "retrieval_lambda_handler get_body response_bucket event =
     Inr \<lparr>statusCode = 400, headers = Some cors_headers,
          body = dumps_message ''Error: Missing request_id in path.''\<rparr>"
  using assms unfolding retrieval_lambda_handler_def by simp

lemma retrieval_headers:
  "retrieval_lambda_handler get_body response_bucket event = Inr resp \<Longrightarrow>
     headers resp = Some cors_headers \<and> statusCode resp \<in> {200, 400, 404, 500}"
  unfolding retrieval_lambda_handler_def
  by (auto split: sum.splits exn.splits)

text \<open>
  Claim C6 says that a request whose path parameters lack \<^verbatim>\<open>request_id\<close> is answered
  with 400, and that every response carries the two headers. For an event whose
  \<^verbatim>\<open>'pathParameters'\<close> is \<^verbatim>\<open>null\<close>, which is what the gateway sends when a request has
  no path parameters, subscripting \<^verbatim>\<open>None\<close> raises \<^verbatim>\<open>TypeError\<close>; the first
  \<^verbatim>\<open>try\<close> catches \<^verbatim>\<open>KeyError\<close> only, so the exception leaves the handler and no
  response is returned. The three lemmas before show the rest of the contract on the
  events where a response is returned.
\<close>

theorem C6_null_path_parameters_raise:
  "retrieval_lambda_handler get_body response_bucket (JDict [(''pathParameters'', JNull)]) =
     Inl TypeError"
  by (simp add: retrieval_lambda_handler_def getitem_def)

subsection \<open>The wait loop\<close>

lemma poll_once_no_match:
  assumes "no_match env response_bucket pre"
  shows "poll_once env k response_bucket pre = ([ListObjectsV2 response_bucket pre], None)"
proof -
  from assms have "case list_objects_v2 env k response_bucket pre of
            Inr (Some (c # cs)) \<Rightarrow> False | _ \<Rightarrow> True"
    unfolding no_match_def by blast
  then show ?thesis
    unfolding poll_once_def by (auto split: sum.splits option.splits list.splits)
qed

lemma wait_loop_times_out:
  assumes p: "0 \<le> poll_interval"
      and d: "\<forall>k. 0 \<le> call_duration env k"
      and step: "\<forall>k. 0 < call_duration env k + poll_interval"
      and nm: "no_match env response_bucket pre"
  shows "\<exists>n. wait_loop env response_bucket pre timeout poll_interval start_time now k ops =
             Some (ops @ replicate n (ListObjectsV2 response_bucket pre), Inr None) \<and>
           (n = 0 \<or> (int n - 1) * poll_interval < timeout - (now - start_time))"
proof (induction "nat (timeout - (now - start_time))" arbitrary: now k ops rule: less_induct)
  case less
  show ?case
  proof (cases "now - start_time < timeout")
    case False
    then have "wait_loop env response_bucket pre timeout poll_interval start_time now k ops =
        Some (ops @ replicate 0 (ListObjectsV2 response_bucket pre), Inr None)"
      by (subst wait_loop.simps) simp
    then show ?thesis by blast
  next
    case True
    let ?now = "now + call_duration env k + poll_interval"
    let ?op = "ListObjectsV2 response_bucket pre"
    from step have adv: "0 < call_duration env k + poll_interval" by blast
    with True have "nat (timeout - (?now - start_time)) < nat (timeout - (now - start_time))"
      by simp
    from less [OF this, of "k + 1" "ops @ [?op]"] obtain n where n:
      "wait_loop env response_bucket pre timeout poll_interval start_time ?now (k + 1)
         (ops @ [?op]) = Some ((ops @ [?op]) @ replicate n ?op, Inr None)"
      "n = 0 \<or> (int n - 1) * poll_interval < timeout - (?now - start_time)"
      by blast
    have unfold: "wait_loop env response_bucket pre timeout poll_interval start_time now k ops =
        wait_loop env response_bucket pre timeout poll_interval start_time ?now (k + 1)
          (ops @ [?op])"
      using True p poll_once_no_match [OF nm, of k]
      by (subst wait_loop.simps) simp
    have res: "wait_loop env response_bucket pre timeout poll_interval start_time now k ops =
        Some (ops @ replicate (Suc n) ?op, Inr None)"
      unfolding unfold n(1) by (simp add: replicate_app_Cons_same)
    have "int n * poll_interval < timeout - (now - start_time)"
    proof (cases "n = 0")
      case True
      with \<open>now - start_time < timeout\<close> show ?thesis by simp
    next
      case False
      with n(2) have "(int n - 1) * poll_interval < timeout - (?now - start_time)" by simp
      moreover from d have "0 \<le> call_duration env k" by blast
      ultimately show ?thesis by (simp add: algebra_simps)
    qed
    then have "(int (Suc n) - 1) * poll_interval < timeout - (now - start_time)" by simp
    with res show ?thesis by blast
  qed
qed

text \<open>
  Claim C7, as amended. Let the poll interval be non-negative, let every pass of the
  loop take positive time (a positive poll interval is enough), and let no listing ever
  find an object under the polled prefix. Then \<^verbatim>\<open>wait_for_translation_result\<close>
  terminates and returns \<^verbatim>\<open>None\<close> as a value, the operations it performed contain no
  write, and no poll starts at or after the deadline: with \<open>n\<close> polls,
  \<open>(n - 1) * poll_interval < timeout\<close>.
\<close>

theorem C7_wait_returns_timeout:
  assumes "0 \<le> poll_interval"
      and "\<forall>k. 0 \<le> call_duration env k"
      and "\<forall>k. 0 < call_duration env k + poll_interval"
      and "no_match env response_bucket (poll_prefix request_id)"
  shows "\<exists>ops. wait_for_translation_result env response_bucket start_time request_id timeout
                 poll_interval = Some (ops, Inr None) \<and>
               (\<forall>op\<in>set ops. \<not> is_write op) \<and>
               (ops = [] \<or> (int (length ops) - 1) * poll_interval < timeout)"
proof -
  from wait_loop_times_out [OF assms, of timeout start_time start_time 0 "[]"]
  obtain n where n:
    "wait_loop env response_bucket (poll_prefix request_id) timeout poll_interval start_time
       start_time 0 [] =
     Some ([] @ replicate n (ListObjectsV2 response_bucket (poll_prefix request_id)), Inr None)"
    "n = 0 \<or> (int n - 1) * poll_interval < timeout - (start_time - start_time)"
    by blast
  let ?ops = "replicate n (ListObjectsV2 response_bucket (poll_prefix request_id))"
  from n(1) have "wait_for_translation_result env response_bucket start_time request_id timeout
                 poll_interval = Some (?ops, Inr None)"
    by (simp add: wait_for_translation_result_def)
  moreover have "\<forall>op\<in>set ?ops. \<not> is_write op" by simp
  moreover from n(2) have "?ops = [] \<or> (int (length ?ops) - 1) * poll_interval < timeout"
    by simp
  ultimately show ?thesis by blast
qed

lemma ex_no_match: "no_match ex_poll_env ''responses'' (poll_prefix ''r1'')"
  by (simp add: no_match_def ex_poll_env_def)

lemma ex_wait:
  "wait_for_translation_result ex_poll_env ''responses'' 100 ''r1'' 3 1 =
     Some ([ex_listing, ex_listing, ex_listing], Inr None)"
  by (simp add: wait_for_translation_result_def wait_loop.simps poll_once_def ex_poll_env_def
      poll_prefix_def ex_listing_def)

theorem C7_wait_returns_timeout_witness:
  "(0::int) \<le> 1 \<and> no_match ex_poll_env ''responses'' (poll_prefix ''r1'') \<and>
   wait_for_translation_result ex_poll_env ''responses'' 100 ''r1'' 3 1 =
     Some ([ex_listing, ex_listing, ex_listing], Inr None) \<and>
   \<not> is_write ex_listing \<and> (int (length [ex_listing, ex_listing, ex_listing]) - 1) * 1 < (3::int)"
proof -
  have h: "(0::int) \<le> 1" "\<forall>k. 0 \<le> call_duration ex_poll_env k"
    "\<forall>k. 0 < call_duration ex_poll_env k + 1"
    by (simp_all add: ex_poll_env_def)
  from C7_wait_returns_timeout [OF h ex_no_match, of 100 3] ex_wait ex_no_match
  show ?thesis by auto
qed

text \<open>
  Claim C7 as stated fails for a negative poll interval: after the first listing finds
  nothing, \<^verbatim>\<open>time.sleep(-1)\<close> raises \<^verbatim>\<open>ValueError\<close> in the \<^verbatim>\<open>try\<close> block and again in
  the \<^verbatim>\<open>except\<close> block, and the exception leaves the function.
\<close>

theorem C7_counterexample:
  "no_match ex_poll_env ''responses'' (poll_prefix ''r1'') \<and>
   wait_for_translation_result ex_poll_env ''responses'' 100 ''r1'' 1 (- 1) =
     Some ([ex_listing], Inl ValueError)"
  using ex_no_match
  by (simp add: wait_for_translation_result_def wait_loop.simps poll_once_def ex_poll_env_def
      poll_prefix_def ex_listing_def)

end
